theory Spec2Isabelle
  imports Main "HOL-Library.Sublist"
begin

section \<open>Go strings\<close>

text \<open>
  A Go string is a sequence of bytes; it is modelled as \<open>string\<close>.  The functions
  of package \<open>strings\<close> that the analyzers call are written out on lists.
\<close>

definition HasPrefix :: "string \<Rightarrow> string \<Rightarrow> bool" where
  "HasPrefix s p = prefix p s"

definition HasSuffix :: "string \<Rightarrow> string \<Rightarrow> bool" where
  "HasSuffix s p = suffix p s"

definition TrimPrefix :: "string \<Rightarrow> string \<Rightarrow> string" where
  "TrimPrefix s p = (if HasPrefix s p then drop (length p) s else s)"

definition TrimSuffix :: "string \<Rightarrow> string \<Rightarrow> string" where
  "TrimSuffix s p = (if HasSuffix s p then take (length s - length p) s else s)"

text \<open>
  \<open>strings.ToLower\<close> on the ASCII letters.  Identifiers and comments are modelled over
  ASCII: a byte outside \<open>A\<close>..\<open>Z\<close> is left as it is.
\<close>

definition upperLetters :: string where
  "upperLetters = ''ABCDEFGHIJKLMNOPQRSTUVWXYZ''"

definition lowerLetters :: string where
  "lowerLetters = ''abcdefghijklmnopqrstuvwxyz''"

definition toLowerChar :: "char \<Rightarrow> char" where
  "toLowerChar c = (case map_of (zip upperLetters lowerLetters) c of Some l \<Rightarrow> l | None \<Rightarrow> c)"

definition ToLower :: "string \<Rightarrow> string" where
  "ToLower s = map toLowerChar s"

section \<open>Configuration (config.go)\<close>

record Config =
  EnableNoPkgLogger :: bool
  EnableEnumIota :: bool
  EnableCurrentYear :: bool
  EnableCapitalComment :: bool
  EnableFuncOpts :: bool
  EnableRawString :: bool
  EnableStructFieldOrder :: bool
  EnableInterfaceCheck :: bool
  LoggerTypePatterns :: "string list"
  EnumTypeSuffixes :: "string list"

definition DefaultConfig :: Config where
  "DefaultConfig =
     \<lparr> EnableNoPkgLogger = True,
       EnableEnumIota = True,
       EnableCurrentYear = True,
       EnableCapitalComment = False,
       EnableFuncOpts = False,
       EnableRawString = False,
       EnableStructFieldOrder = False,
       EnableInterfaceCheck = False,
       LoggerTypePatterns =
         [''zerolog.Logger'', ''*zerolog.Logger'', ''zap.Logger'', ''*zap.Logger'',
          ''zap.SugaredLogger'', ''*zap.SugaredLogger'', ''logrus.Logger'', ''*logrus.Logger'',
          ''logrus.Entry'', ''*logrus.Entry'', ''slog.Logger'', ''*slog.Logger'',
          ''log.Logger'', ''*log.Logger''],
       EnumTypeSuffixes = [''Type'', ''Status'', ''State'', ''Kind'', ''Mode''] \<rparr>"

text \<open>
  \<open>Merge\<close> mutates its receiver; the model returns the receiver after the call.
  The argument is a pointer, \<open>None\<close> for \<open>nil\<close>.  A nil slice and an empty slice
  both have length 0 and are both the empty list.
\<close>

definition Merge :: "Config \<Rightarrow> Config option \<Rightarrow> Config" where
  "Merge c other =
     (case other of
        None \<Rightarrow> c
      | Some oc \<Rightarrow>
          (let c1 = (if length (LoggerTypePatterns oc) > 0
                     then c\<lparr>LoggerTypePatterns := LoggerTypePatterns oc\<rparr> else c);
               c2 = (if length (EnumTypeSuffixes oc) > 0
                     then c1\<lparr>EnumTypeSuffixes := EnumTypeSuffixes oc\<rparr> else c1)
           in c2))"

section \<open>Plugin initialisation (plugin.go)\<close>

text \<open>
  The settings reach \<open>New\<close> as a Go value of type \<open>any\<close>, which \<open>New\<close> encodes to JSON
  and decodes twice, into a \<open>Config\<close> and into a \<open>map[string]any\<close>.  The value is
  modelled as the JSON tree it encodes to; \<open>JUnsupported\<close> stands for a value that
  \<open>json.Marshal\<close> rejects.  The members of an object are kept in the order of the
  encoded text.
\<close>

datatype jvalue =
    JNull
  | JBool bool
  | JNumber int
  | JString string
  | JArray "jvalue list"
  | JObject "(string \<times> jvalue) list"
  | JUnsupported

datatype error = MarshalError | UnmarshalTypeError


















section \<open>Syntax trees and diagnostics\<close>

text \<open>
  The part of \<open>go/ast\<close> that the analyzers inspect.  A declared name is an identifier
  with its position; inside a type or value expression only the names are read.  An
  expression node that no analyzer looks into is \<open>OtherExpr\<close>.
\<close>

type_synonym pos = nat

datatype ident = Ident string pos

fun identName :: "ident \<Rightarrow> string" where
  "identName (Ident n p) = n"

fun identPos :: "ident \<Rightarrow> pos" where
  "identPos (Ident n p) = p"

datatype litKind = L_INT | L_FLOAT | L_IMAG | L_CHAR | L_STRING

datatype expr =
    IdentExpr string
  | SelectorExpr expr string
  | StarExpr expr
  | ParenExpr expr
  | CallExpr expr "expr list"
  | BasicLit litKind string
  | Ellipsis expr
  | ChanType expr
  | FuncType
  | InterfaceType
  | StructType "field list option"
  | OtherExpr
and field = Field "ident list" expr

text \<open>
  A diagnostic is the position and the message that \<open>pass.Reportf\<close> receives.  Each
  analyzer has one fixed format string; the message is kept as the analyzer's tag with
  the arguments of the format.
\<close>

type_synonym fieldCategory = int

datatype message =
    PackageLevelLogger string
  | EnumConstantUsesString string
  | FieldShouldComeBefore string fieldCategory string fieldCategory string
  | StructImplementsInterface string string
  | CommentShouldStartCapital
  | ConstructorManyParameters string
  | CopyrightYearOutdated int int

datatype diagnostic = Diagnostic pos message

section \<open>Declarations, files and type information\<close>

text \<open>
  A declaration is a \<open>GenDecl\<close> with its keyword and specs, or a \<open>FuncDecl\<close> with receiver,
  name, parameters, results and the declarations made inside its body.  Parameters and
  results are \<open>None\<close> where the field list pointer is nil.
\<close>

datatype token = T_IMPORT | T_CONST | T_TYPE | T_VAR

datatype spec =
    ImportSpec
  | ValueSpec "ident list" "expr option" "expr list"
  | TypeSpec ident expr

datatype decl =
    GenDecl token "spec list"
  | FuncDecl "field list option" ident "field list option" "field list option" "decl list"
  | BadDecl

text \<open>
  A comment group carries its comments (position and raw text, markers included) and the
  text that \<open>CommentGroup.Text()\<close> of the host returns for it.
\<close>

datatype comment = Comment pos string

record commentGroup =
  List :: "comment list"
  Text :: string

record File =
  Package :: pos
  Decls :: "decl list"
  Comments :: "commentGroup list"

text \<open>
  The types of \<open>go/types\<close> as far as the analyzers look at them: a basic type with its
  kind, a named type with the package path and name of its object and its underlying
  type, a pointer, and any other type with the string \<open>types.TypeString\<close> prints for it.
  \<open>NilType\<close> is the nil interface value.
\<close>

datatype basicKind = KBool | KInt | KUint64 | KFloat64 | KString | KOther string

datatype gotype =
    Basic basicKind
  | Named string string gotype
  | Pointer gotype
  | OtherType string
  | NilType

fun basicName :: "basicKind \<Rightarrow> string" where
  "basicName KBool = ''bool''"
| "basicName KInt = ''int''"
| "basicName KUint64 = ''uint64''"
| "basicName KFloat64 = ''float64''"
| "basicName KString = ''string''"
| "basicName (KOther n) = n"

text \<open>
  \<open>types.TypeString(t, nil)\<close>: with no qualifier a named type is written with its full
  package path.
\<close>

fun TypeString :: "gotype \<Rightarrow> string" where
  "TypeString (Basic k) = basicName k"
| "TypeString (Named path name u) = (if path = [] then name else path @ ''.'' @ name)"
| "TypeString (Pointer t) = ''*'' @ TypeString t"
| "TypeString (OtherType s) = s"
| "TypeString NilType = ''<nil>''"

text \<open>
  An object of the type checker: the scope it is declared in (\<open>None\<close> for nil, as for a
  struct field), the scope of its package, and its type.
\<close>

type_synonym scope = nat

record object =
  Parent :: "scope option"
  PkgScope :: scope
  Type :: gotype

record pass =
  Files :: "File list"
  ObjectOf :: "ident \<Rightarrow> object option"

section \<open>Struct field order (analyzers/structfieldorder)\<close>

definition categoryUnknown :: fieldCategory where
  "categoryUnknown = 0"
definition categoryLogger :: fieldCategory where
  "categoryLogger = 1"
definition categoryMetrics :: fieldCategory where
  "categoryMetrics = 2"
definition categoryDependency :: fieldCategory where
  "categoryDependency = 3"
definition categoryData :: fieldCategory where
  "categoryData = 4"
definition categorySync :: fieldCategory where
  "categorySync = 5"

fun isSyncType :: "expr \<Rightarrow> bool" where
  "isSyncType (SelectorExpr (IdentExpr x) sel) =
     (if x = ''sync''
      then sel \<in> set [''Mutex'', ''RWMutex'', ''WaitGroup'', ''Once'', ''Cond'', ''Pool'', ''Map'']
      else False)"
| "isSyncType _ = False"

fun isChanType :: "expr \<Rightarrow> bool" where
  "isChanType (ChanType e) = True"
| "isChanType _ = False"

text \<open>The name tests of \<open>categorizeField\<close>, each on the lower-cased field name.\<close>

definition loggerName :: "string \<Rightarrow> bool" where
  "loggerName lowerName \<longleftrightarrow>
     lowerName = ''log'' \<or> lowerName = ''logger''
     \<or> HasSuffix lowerName ''log'' \<or> HasSuffix lowerName ''logger''"

definition metricsName :: "string \<Rightarrow> bool" where
  "metricsName lowerName \<longleftrightarrow>
     lowerName = ''metrics'' \<or> lowerName = ''monitor'' \<or> HasSuffix lowerName ''metrics''"

definition syncName :: "string \<Rightarrow> bool" where
  "syncName lowerName \<longleftrightarrow>
     lowerName = ''mu'' \<or> lowerName = ''mutex'' \<or> lowerName = ''lock''
     \<or> lowerName = ''wg'' \<or> HasSuffix lowerName ''mu''
     \<or> HasSuffix lowerName ''lock'' \<or> HasSuffix lowerName ''mutex''"

definition dependencyName :: "string \<Rightarrow> bool" where
  "dependencyName lowerName \<longleftrightarrow>
     HasSuffix lowerName ''client'' \<or> HasSuffix lowerName ''service''
     \<or> HasSuffix lowerName ''provider'' \<or> HasSuffix lowerName ''handler''
     \<or> lowerName = ''db'' \<or> lowerName = ''database'' \<or> lowerName = ''store''
     \<or> lowerName = ''cache'' \<or> lowerName = ''repo'' \<or> lowerName = ''repository''"

definition categorizeField :: "string \<Rightarrow> expr \<Rightarrow> fieldCategory" where
  "categorizeField name typ =
     (let lowerName = ToLower name in
      if loggerName lowerName then categoryLogger
      else if metricsName lowerName then categoryMetrics
      else if isSyncType typ then categorySync
      else if syncName lowerName then categorySync
      else if isChanType typ then categorySync
      else if dependencyName lowerName then categoryDependency
      else categoryData)"

text \<open>
  The loop of \<open>checkStructFieldOrder\<close> carries \<open>lastCategory\<close>, \<open>lastCategoryField\<close> and
  the diagnostics reported so far.
\<close>

type_synonym orderState = "fieldCategory \<times> string \<times> diagnostic list"

definition checkName :: "string \<Rightarrow> expr \<Rightarrow> orderState \<Rightarrow> ident \<Rightarrow> orderState" where
  "checkName structName typ st name =
     (case st of (lastCategory, lastCategoryField, diags) \<Rightarrow>
        (let cat = categorizeField (identName name) typ in
         if cat = categoryUnknown then st
         else
           (let diags' =
                  (if cat < lastCategory
                   then diags @ [Diagnostic (identPos name)
                                  (FieldShouldComeBefore (identName name) cat
                                     lastCategoryField lastCategory structName)]
                   else diags)
            in (cat, identName name, diags'))))"

fun checkField :: "string \<Rightarrow> orderState \<Rightarrow> field \<Rightarrow> orderState" where
  "checkField structName st (Field names typ) =
     (if length names = 0 then st
      else foldl (checkName structName typ) st names)"

definition checkStructFieldOrder :: "string \<Rightarrow> field list option \<Rightarrow> diagnostic list" where
  "checkStructFieldOrder structName fieldList =
     (case fieldList of
        None \<Rightarrow> []
      | Some fs \<Rightarrow>
          (if length fs = 0 then []
           else snd (snd (foldl (checkField structName) (0, [], []) fs))))"

fun checkStructSpec :: "spec \<Rightarrow> diagnostic list" where
  "checkStructSpec (TypeSpec name (StructType fs)) = checkStructFieldOrder (identName name) fs"
| "checkStructSpec _ = []"

fun checkStructDecl :: "decl \<Rightarrow> diagnostic list" where
  "checkStructDecl (GenDecl tok specs) = concat (map checkStructSpec specs)"
| "checkStructDecl _ = []"

definition structfieldorder_run :: "pass \<Rightarrow> diagnostic list" where
  "structfieldorder_run p = concat (map (\<lambda>f. concat (map checkStructDecl (Decls f))) (Files p))"

text \<open>The named fields of a struct in declared order, each name with the type of its field.\<close>

fun fieldNames :: "field \<Rightarrow> (ident \<times> expr) list" where
  "fieldNames (Field names typ) = map (\<lambda>n. (n, typ)) names"

definition namedFields :: "field list \<Rightarrow> (ident \<times> expr) list" where
  "namedFields fs = concat (map fieldNames fs)"

definition fieldCat :: "ident \<times> expr \<Rightarrow> fieldCategory" where
  "fieldCat nt = categorizeField (identName (fst nt)) (snd nt)"

text \<open>
  The reading of the rule in which a field is flagged when its category precedes any
  category seen earlier in the struct: the positions of those fields.
\<close>

definition precedesSeenEarlier :: "(ident \<times> expr) list \<Rightarrow> ident \<times> expr \<Rightarrow> bool" where
  "precedesSeenEarlier before x \<longleftrightarrow> list_ex (\<lambda>y. fieldCat x < fieldCat y) before"

fun diagPos :: "diagnostic \<Rightarrow> pos" where
  "diagPos (Diagnostic p m) = p"

text \<open>The diagnostic for a field whose category precedes that of the field before it.\<close>

definition orderDiagnostic :: "string \<Rightarrow> (ident \<times> expr) \<times> (ident \<times> expr) \<Rightarrow> diagnostic" where
  "orderDiagnostic structName pc =
     (case pc of (prev, cur) \<Rightarrow>
        Diagnostic (identPos (fst cur))
          (FieldShouldComeBefore (identName (fst cur)) (fieldCat cur)
             (identName (fst prev)) (fieldCat prev) structName))"

definition outOfOrder :: "(ident \<times> expr) \<times> (ident \<times> expr) \<Rightarrow> bool" where
  "outOfOrder pc \<longleftrightarrow> fieldCat (snd pc) < fieldCat (fst pc)"

section \<open>Package-level loggers (analyzers/nopkglogger)\<close>

definition matchTypePattern :: "string \<Rightarrow> string \<Rightarrow> bool" where
  "matchTypePattern typeName pattern =
     (let (typeName', pattern', ok) =
            (if HasPrefix pattern ''*''
             then (if \<not> HasPrefix typeName ''*'' then (typeName, pattern, False)
                   else (TrimPrefix typeName ''*'', TrimPrefix pattern ''*'', True))
             else if HasPrefix typeName ''*'' then (typeName, pattern, False)
             else (typeName, pattern, True))
      in if \<not> ok then False
         else if HasSuffix typeName' pattern'
         then (let pre = TrimSuffix typeName' pattern'
               in (if pre = '''' \<or> HasSuffix pre ''/'' \<or> HasSuffix pre ''.'' then True
                   else False))
         else False)"

definition typeString :: "gotype \<Rightarrow> string" where
  "typeString t = TypeString t"

definition isLoggerType :: "string list \<Rightarrow> gotype \<Rightarrow> bool" where
  "isLoggerType loggerTypePatterns t =
     (let typeName = typeString t in list_ex (matchTypePattern typeName) loggerTypePatterns)"

definition checkLoggerName :: "string list \<Rightarrow> pass \<Rightarrow> ident \<Rightarrow> diagnostic list" where
  "checkLoggerName loggerTypePatterns p name =
     (case ObjectOf p name of
        None \<Rightarrow> []
      | Some obj \<Rightarrow>
          (if Parent obj \<noteq> Some (PkgScope obj) then []
           else if isLoggerType loggerTypePatterns (Type obj)
           then [Diagnostic (identPos name) (PackageLevelLogger (identName name))]
           else []))"

fun checkLoggerSpec :: "string list \<Rightarrow> pass \<Rightarrow> spec \<Rightarrow> diagnostic list" where
  "checkLoggerSpec ps p (ValueSpec names typ vals) = concat (map (checkLoggerName ps p) names)"
| "checkLoggerSpec ps p _ = []"

fun checkLoggerDecl :: "string list \<Rightarrow> pass \<Rightarrow> decl \<Rightarrow> diagnostic list" where
  "checkLoggerDecl ps p (GenDecl tok specs) = concat (map (checkLoggerSpec ps p) specs)"
| "checkLoggerDecl ps p _ = []"

definition nopkglogger_run :: "string list \<Rightarrow> pass \<Rightarrow> diagnostic list" where
  "nopkglogger_run loggerTypePatterns p =
     concat (map (\<lambda>f. concat (map (checkLoggerDecl loggerTypePatterns p) (Decls f))) (Files p))"

text \<open>
  The matching rule in the words of the specification.  The indirection marker is \<open>*\<close>,
  the module-path separator \<open>/\<close> and the member separator \<open>.\<close>; the character before the
  match is the one at index \<open>length typeName - length pattern - 1\<close>.
\<close>

definition hasMarker :: "string \<Rightarrow> bool" where
  "hasMarker s \<longleftrightarrow> (case s of [] \<Rightarrow> False | c # cs \<Rightarrow> c = CHR ''*'')"

definition endsAtBoundary :: "string \<Rightarrow> string \<Rightarrow> bool" where
  "endsAtBoundary typeName pattern \<longleftrightarrow>
     suffix pattern typeName
     \<and> (length typeName = length pattern
        \<or> typeName ! (length typeName - length pattern - 1) \<in> {CHR ''/'', CHR ''.''})"

definition matches :: "string \<Rightarrow> string \<Rightarrow> bool" where
  "matches typeName pattern \<longleftrightarrow>
     (if hasMarker pattern
      then hasMarker typeName \<and> endsAtBoundary (tl typeName) (tl pattern)
      else \<not> hasMarker typeName \<and> endsAtBoundary typeName pattern)"

text \<open>The names declared by the value specs at the top level of the files of a pass.\<close>

fun specValueNames :: "spec \<Rightarrow> ident list" where
  "specValueNames (ValueSpec names typ vals) = names"
| "specValueNames _ = []"

fun declValueNames :: "decl \<Rightarrow> ident list" where
  "declValueNames (GenDecl tok specs) = concat (map specValueNames specs)"
| "declValueNames _ = []"

definition topLevelValueNames :: "pass \<Rightarrow> ident list" where
  "topLevelValueNames p = concat (map (\<lambda>f. concat (map declValueNames (Decls f))) (Files p))"

text \<open>
  The test data of the analyzer (testdata/src/nopkglogger): a package-level logger, a
  struct with a logger field and a function with a local logger.  Scope 1 is the package
  scope, scope 2 the body of \<open>doSomething\<close>.
\<close>

definition zerologLogger :: gotype where
  "zerologLogger = Named ''nopkglogger/zerolog'' ''Logger'' (OtherType ''struct{}'')"

definition nopkgloggerExample :: pass where
  "nopkgloggerExample =
     \<lparr> Files =
         [\<lparr> Package = 1,
            Decls =
              [GenDecl T_VAR
                 [ValueSpec [Ident ''log'' 10]
                    (Some (SelectorExpr (IdentExpr ''zerolog'') ''Logger'')) []],
               GenDecl T_TYPE
                 [TypeSpec (Ident ''Service'' 30)
                    (StructType (Some [Field [Ident ''log'' 31]
                       (SelectorExpr (IdentExpr ''zerolog'') ''Logger'')]))],
               FuncDecl None (Ident ''doSomething'' 40) (Some []) None
                 [GenDecl T_VAR
                    [ValueSpec [Ident ''localLog'' 41]
                       (Some (SelectorExpr (IdentExpr ''zerolog'') ''Logger'')) []]]],
            Comments = [] \<rparr>],
       ObjectOf =
         (\<lambda>i. if i = Ident ''log'' 10
               then Some \<lparr> Parent = Some 1, PkgScope = 1, Type = zerologLogger \<rparr>
               else if i = Ident ''log'' 31
               then Some \<lparr> Parent = None, PkgScope = 1, Type = zerologLogger \<rparr>
               else if i = Ident ''localLog'' 41
               then Some \<lparr> Parent = Some 2, PkgScope = 1, Type = zerologLogger \<rparr>
               else None) \<rparr>"

section \<open>Enum constants (analyzers/enumiota)\<close>

definition isEnumTypeName :: "string list \<Rightarrow> string \<Rightarrow> bool" where
  "isEnumTypeName enumTypeSuffixes name = list_ex (HasSuffix name) enumTypeSuffixes"

text \<open>
  The first pass fills the map \<open>enumTypes\<close>; only its keys are read afterwards, so the
  map is the list of the names put into it.
\<close>

fun enumTypeOfSpec :: "string list \<Rightarrow> spec \<Rightarrow> string list" where
  "enumTypeOfSpec sfx (TypeSpec name typ) =
     (if isEnumTypeName sfx (identName name) then [identName name] else [])"
| "enumTypeOfSpec sfx _ = []"

fun enumTypesOfDecl :: "string list \<Rightarrow> decl \<Rightarrow> string list" where
  "enumTypesOfDecl sfx (GenDecl tok specs) =
     (if tok \<noteq> T_TYPE then [] else concat (map (enumTypeOfSpec sfx) specs))"
| "enumTypesOfDecl sfx _ = []"

definition collectEnumTypes :: "string list \<Rightarrow> pass \<Rightarrow> string list" where
  "collectEnumTypes sfx p =
     concat (map (\<lambda>f. concat (map (enumTypesOfDecl sfx) (Decls f))) (Files p))"

fun isStringType :: "gotype \<Rightarrow> bool" where
  "isStringType (Basic k) = (k = KString)"
| "isStringType _ = False"

fun isStringLit :: "expr \<Rightarrow> bool" where
  "isStringLit (BasicLit kind v) = (kind = L_STRING)"
| "isStringLit _ = False"

definition hasStringLiteralValue :: "expr list \<Rightarrow> bool" where
  "hasStringLiteralValue vals = (if length vals = 0 then False else list_ex isStringLit vals)"

text \<open>
  The body of the loop of \<open>checkConstDecl\<close> for one spec.  The position of a value spec
  is the position of its first name.
\<close>

fun checkConstSpec :: "pass \<Rightarrow> string list \<Rightarrow> spec \<Rightarrow> diagnostic list" where
  "checkConstSpec p enumTypes (ValueSpec names typ vals) =
     (if length names = 0 then []
      else
        (case ObjectOf p (names ! 0) of
           None \<Rightarrow> []
         | Some obj \<Rightarrow>
             (case Type obj of
                NilType \<Rightarrow> []
              | Named path typeName underlying \<Rightarrow>
                  (if typeName \<notin> set enumTypes then []
                   else if isStringType underlying
                   then (if hasStringLiteralValue vals
                         then [Diagnostic (identPos (names ! 0))
                                 (EnumConstantUsesString (identName (names ! 0)))]
                         else [])
                   else [])
              | _ \<Rightarrow> [])))"
| "checkConstSpec p enumTypes _ = []"

definition checkConstDecl :: "pass \<Rightarrow> spec list \<Rightarrow> string list \<Rightarrow> diagnostic list" where
  "checkConstDecl p specs enumTypes = concat (map (checkConstSpec p enumTypes) specs)"

fun checkConstOfDecl :: "pass \<Rightarrow> string list \<Rightarrow> decl \<Rightarrow> diagnostic list" where
  "checkConstOfDecl p enumTypes (GenDecl tok specs) =
     (if tok \<noteq> T_CONST then [] else checkConstDecl p specs enumTypes)"
| "checkConstOfDecl p enumTypes _ = []"

definition enumiota_run :: "string list \<Rightarrow> pass \<Rightarrow> diagnostic list" where
  "enumiota_run enumTypeSuffixes p =
     (let enumTypes = collectEnumTypes enumTypeSuffixes p
      in concat (map (\<lambda>f. concat (map (checkConstOfDecl p enumTypes) (Decls f))) (Files p)))"

text \<open>
  The rule in the words of the specification, for the constant declared by the \<open>i\<close>-th
  name of a value spec: its type is a named type whose name is a candidate of the first
  phase, the underlying type is \<open>string\<close>, and the value assigned to it, the \<open>i\<close>-th of
  the spec, is a string literal.
\<close>

definition enumCandidate :: "string list \<Rightarrow> pass \<Rightarrow> string \<Rightarrow> bool" where
  "enumCandidate sfx p typeName \<longleftrightarrow> typeName \<in> set (collectEnumTypes sfx p)"

definition constantToFlag ::
  "string list \<Rightarrow> pass \<Rightarrow> ident list \<Rightarrow> expr list \<Rightarrow> nat \<Rightarrow> bool" where
  "constantToFlag sfx p names vals i \<longleftrightarrow>
     i < length names \<and>
     (case ObjectOf p (names ! i) of
        None \<Rightarrow> False
      | Some obj \<Rightarrow>
          (case Type obj of
             Named path typeName underlying \<Rightarrow>
               enumCandidate sfx p typeName \<and> isStringType underlying
               \<and> i < length vals \<and> isStringLit (vals ! i)
           | _ \<Rightarrow> False))"

fun flaggedNames :: "diagnostic list \<Rightarrow> string list" where
  "flaggedNames [] = []"
| "flaggedNames (Diagnostic pos (EnumConstantUsesString n) # ds) = n # flaggedNames ds"
| "flaggedNames (d # ds) = flaggedNames ds"

text \<open>
  The three declarations of the specification's examples, and a constant declaration that
  declares two constants of an enum type in one spec.
\<close>

definition enumObjects :: "ident \<Rightarrow> object option" where
  "enumObjects i =
     (if i = Ident ''SANTypeDNS'' 20 \<or> i = Ident ''SANTypeEmail'' 21
      then Some \<lparr> Parent = Some 1, PkgScope = 1,
                  Type = Named ''enumiota'' ''SANType'' (Basic KString) \<rparr>
      else if i = Ident ''ColorRed'' 40
      then Some \<lparr> Parent = Some 1, PkgScope = 1,
                  Type = Named ''enumiota'' ''Color'' (Basic KString) \<rparr>
      else if i = Ident ''PriorityLow'' 60
      then Some \<lparr> Parent = Some 1, PkgScope = 1,
                  Type = Named ''enumiota'' ''Priority'' (Basic KUint64) \<rparr>
      else None)"

definition enumExample :: pass where
  "enumExample =
     \<lparr> Files =
         [\<lparr> Package = 1,
            Decls =
              [GenDecl T_TYPE [TypeSpec (Ident ''SANType'' 10) (IdentExpr ''string'')],
               GenDecl T_CONST
                 [ValueSpec [Ident ''SANTypeDNS'' 20] (Some (IdentExpr ''SANType''))
                    [BasicLit L_STRING ''dns'']],
               GenDecl T_TYPE [TypeSpec (Ident ''Color'' 30) (IdentExpr ''string'')],
               GenDecl T_CONST
                 [ValueSpec [Ident ''ColorRed'' 40] (Some (IdentExpr ''Color''))
                    [BasicLit L_STRING ''red'']],
               GenDecl T_TYPE [TypeSpec (Ident ''Priority'' 50) (IdentExpr ''uint64'')],
               GenDecl T_CONST
                 [ValueSpec [Ident ''PriorityLow'' 60] (Some (IdentExpr ''Priority''))
                    [BasicLit L_INT ''10'']]],
            Comments = [] \<rparr>],
       ObjectOf = enumObjects \<rparr>"

definition enumTwoNames :: pass where
  "enumTwoNames =
     \<lparr> Files =
         [\<lparr> Package = 1,
            Decls =
              [GenDecl T_TYPE [TypeSpec (Ident ''SANType'' 10) (IdentExpr ''string'')],
               GenDecl T_CONST
                 [ValueSpec [Ident ''SANTypeDNS'' 20, Ident ''SANTypeEmail'' 21]
                    (Some (IdentExpr ''SANType''))
                    [BasicLit L_STRING ''dns'', BasicLit L_STRING ''email'']]],
            Comments = [] \<rparr>],
       ObjectOf = enumObjects \<rparr>"

section \<open>Constructors (analyzers/funcopts)\<close>

definition serviceTypeSuffixes :: "string list" where
  "serviceTypeSuffixes =
     [''Service'', ''Manager'', ''Handler'', ''Controller'', ''Provider'', ''Client'',
      ''Server'']"

definition isServiceTypeName :: "string \<Rightarrow> bool" where
  "isServiceTypeName name = list_ex (HasSuffix name) serviceTypeSuffixes"

fun isStructType :: "expr \<Rightarrow> bool" where
  "isStructType (StructType fs) = True"
| "isStructType _ = False"

text \<open>The map \<open>serviceTypes\<close> holds \<open>true\<close> for the names put into it: the list of its keys.\<close>

fun serviceTypeOfSpec :: "spec \<Rightarrow> string list" where
  "serviceTypeOfSpec (TypeSpec name typ) =
     (if \<not> isStructType typ then []
      else if isServiceTypeName (identName name) then [identName name] else [])"
| "serviceTypeOfSpec _ = []"

fun serviceTypesOfDecl :: "decl \<Rightarrow> string list" where
  "serviceTypesOfDecl (GenDecl tok specs) = concat (map serviceTypeOfSpec specs)"
| "serviceTypesOfDecl _ = []"

definition collectServiceTypes :: "pass \<Rightarrow> string list" where
  "collectServiceTypes p =
     concat (map (\<lambda>f. concat (map serviceTypesOfDecl (Decls f))) (Files p))"

text \<open>The loop of \<open>getReturnTypeName\<close> over the result fields.\<close>

fun returnTypeLoop :: "field list \<Rightarrow> string" where
  "returnTypeLoop [] = ''''"
| "returnTypeLoop (Field names (StarExpr (IdentExpr n)) # rs) = n"
| "returnTypeLoop (Field names (IdentExpr n) # rs) = n"
| "returnTypeLoop (r # rs) = returnTypeLoop rs"

definition getReturnTypeName :: "field list option \<Rightarrow> string" where
  "getReturnTypeName results =
     (case results of
        None \<Rightarrow> ''''
      | Some rs \<Rightarrow> if length rs = 0 then '''' else returnTypeLoop rs)"

fun isContextParam :: "field \<Rightarrow> bool" where
  "isContextParam (Field names (SelectorExpr (IdentExpr x) sel)) =
     (x = ''context'' \<and> sel = ''Context'')"
| "isContextParam _ = False"

fun isOptionsParam :: "field \<Rightarrow> bool" where
  "isOptionsParam (Field names (Ellipsis (IdentExpr name))) =
     (HasSuffix name ''Option'' \<or> HasSuffix name ''Opt'')"
| "isOptionsParam (Field names (Ellipsis FuncType)) = True"
| "isOptionsParam _ = False"

fun fieldNameCount :: "field \<Rightarrow> nat" where
  "fieldNameCount (Field names typ) = (if length names = 0 then 1 else length names)"

text \<open>The loop of \<open>shouldSuggestFuncOpts\<close>, with the counter \<open>nonContextParams\<close>.\<close>

fun paramLoop :: "field list \<Rightarrow> nat \<Rightarrow> bool" where
  "paramLoop [] nonContextParams = (nonContextParams > 3)"
| "paramLoop (param # ps) nonContextParams =
     (if isContextParam param then paramLoop ps nonContextParams
      else if isOptionsParam param then False
      else paramLoop ps (nonContextParams + fieldNameCount param))"

definition shouldSuggestFuncOpts :: "field list option \<Rightarrow> bool" where
  "shouldSuggestFuncOpts params =
     (case params of None \<Rightarrow> False | Some ps \<Rightarrow> paramLoop ps 0)"

fun checkFuncDecl :: "string list \<Rightarrow> decl \<Rightarrow> diagnostic list" where
  "checkFuncDecl serviceTypes (FuncDecl recv fname params results body) =
     (if recv \<noteq> None then []
      else
        (let name = identName fname in
         if \<not> HasPrefix name ''New'' \<and> \<not> HasPrefix name ''Create'' then []
         else
           (let returnType = getReturnTypeName results in
            if returnType = '''' \<or> returnType \<notin> set serviceTypes then []
            else if shouldSuggestFuncOpts params
            then [Diagnostic (identPos fname) (ConstructorManyParameters name)]
            else [])))"
| "checkFuncDecl serviceTypes _ = []"

definition funcopts_run :: "pass \<Rightarrow> diagnostic list" where
  "funcopts_run p =
     (let serviceTypes = collectServiceTypes p
      in concat (map (\<lambda>f. concat (map (checkFuncDecl serviceTypes) (Decls f))) (Files p)))"











section \<open>Comments (analyzers/capitalcomment)\<close>

text \<open>
  The predicates of package \<open>unicode\<close> on the ASCII range, where a rune is a byte:
  \<open>IsPunct\<close> holds for the characters of the Unicode categories P*, \<open>IsSpace\<close> for tab,
  line feed, vertical tab, form feed, carriage return and space.
\<close>

definition IsPunct :: "char \<Rightarrow> bool" where
  "IsPunct c \<longleftrightarrow>
     c \<in> set (''!#%&()*,-./:;?@[]_{}'' @ [CHR 0x22, CHR 0x27, CHR 0x5C])"

definition IsDigit :: "char \<Rightarrow> bool" where
  "IsDigit c \<longleftrightarrow> c \<in> set ''0123456789''"

definition IsLower :: "char \<Rightarrow> bool" where
  "IsLower c \<longleftrightarrow> c \<in> set lowerLetters"

definition IsUpper :: "char \<Rightarrow> bool" where
  "IsUpper c \<longleftrightarrow> c \<in> set upperLetters"

definition IsSpace :: "char \<Rightarrow> bool" where
  "IsSpace c \<longleftrightarrow> c \<in> set [CHR 0x09, CHR 0x0A, CHR 0x0B, CHR 0x0C, CHR 0x0D, CHR 0x20]"

definition TrimSpace :: "string \<Rightarrow> string" where
  "TrimSpace s = rev (dropWhile IsSpace (rev (dropWhile IsSpace s)))"

definition Contains :: "string \<Rightarrow> string \<Rightarrow> bool" where
  "Contains s substr = sublist substr s"

text \<open>
  \<open>strings.Fields\<close>: the maximal runs of characters that are not white space.  The first
  argument of the loop is the run read so far, in reverse.
\<close>

fun fieldsLoop :: "string \<Rightarrow> string \<Rightarrow> string list" where
  "fieldsLoop cur [] = (if cur = [] then [] else [rev cur])"
| "fieldsLoop cur (c # cs) =
     (if IsSpace c
      then (if cur = [] then fieldsLoop [] cs else rev cur # fieldsLoop [] cs)
      else fieldsLoop (c # cur) cs)"

definition Fields :: "string \<Rightarrow> string list" where
  "Fields s = fieldsLoop [] s"

definition shouldSkip :: "string \<Rightarrow> bool" where
  "shouldSkip text =
     (let lowerText = ToLower text in
      if HasPrefix lowerText ''nolint'' then True
      else if list_ex (HasPrefix lowerText) [''todo'', ''fixme'', ''hack'', ''xxx'', ''bug'']
      then True
      else if Contains text ''://'' then True
      else if HasPrefix text ''+build'' \<or> HasPrefix text ''go:'' then True
      else if list_ex (Contains lowerText)
                [''you may not use this file'',
                 ''distributed under the license'',
                 ''without warranties or conditions'',
                 ''limitations under the license'',
                 ''permission is hereby granted'',
                 ''the above copyright notice'',
                 ''in no event shall'',
                 ''as is'']
      then True
      else False)"

text \<open>The keys of the map \<open>commonEnglishWords\<close>, all mapped to \<open>true\<close>.\<close>

definition commonEnglishWords :: "string list" where
  "commonEnglishWords =
     [''this'', ''that'', ''these'', ''those'',
      ''it'', ''its'', ''the'', ''a'', ''an'',
      ''here'', ''there'', ''where'', ''when'',
      ''see'', ''use'', ''set'', ''get'',
      ''all'', ''any'', ''some'', ''each'',
      ''for'', ''not'', ''but'', ''and'', ''or'']"

definition identifierFollowers :: "string list" where
  "identifierFollowers =
     [''is'', ''are'', ''was'', ''were'', ''has'', ''have'', ''had'',
      ''contains'', ''returns'', ''holds'', ''stores'', ''represents'',
      ''defines'', ''implements'', ''provides'', ''specifies'']"

text \<open>
  In \<open>looksLikeIdentifier\<close> the loop over the runes of the first word looks for an upper
  case letter at an index greater than 0, that is, in the tail of the word.
\<close>

definition looksLikeIdentifier :: "string \<Rightarrow> bool" where
  "looksLikeIdentifier text =
     (let words = Fields text in
      if length words = 0 then False
      else
        (let firstWord = words ! 0 in
         if ToLower firstWord \<in> set commonEnglishWords then False
         else if Contains firstWord ''_'' then True
         else if list_ex IsUpper (tl firstWord) then True
         else if length words \<ge> 2
         then (let followWord = ToLower (words ! 1)
               in list_ex (\<lambda>follower. followWord = follower) identifierFollowers)
         else False))"

definition commentText :: "string \<Rightarrow> string" where
  "commentText raw =
     TrimSpace (TrimSuffix (TrimPrefix (TrimPrefix raw ''//'') ''/*'') ''*/'')"

fun checkComment :: "comment \<Rightarrow> diagnostic list" where
  "checkComment (Comment pos raw) =
     (let text = commentText raw in
      case text of
        [] \<Rightarrow> []
      | firstRune # rest \<Rightarrow>
          (if IsPunct firstRune \<or> IsDigit firstRune then []
           else if shouldSkip text then []
           else if IsLower firstRune
           then (if looksLikeIdentifier text then []
                 else [Diagnostic pos CommentShouldStartCapital])
           else []))"

definition capitalcomment_run :: "pass \<Rightarrow> diagnostic list" where
  "capitalcomment_run p =
     concat (map (\<lambda>f. concat (map (\<lambda>cg. if length (List cg) > 0
                                          then checkComment (List cg ! 0) else [])
                              (Comments f)))
            (Files p))"

text \<open>
  The rule in the words of the specification, on the text of the first line: the first
  word, whether it is a common function word, and whether it is identifier-like (an
  internal case change, a separator character, or a descriptive verb after it).
\<close>

definition firstWord :: "string \<Rightarrow> string" where
  "firstWord text = (case Fields text of [] \<Rightarrow> [] | w # ws \<Rightarrow> w)"






section \<open>Copyright year (analyzers/currentyear)\<close>

text \<open>
  The regular expressions that \<open>copyrightYearPattern\<close> is built from: a character
  class, a literal, concatenation, alternation, an optional part, a greedy repetition of
  a character class, and the one capturing group.
\<close>

datatype re =
    Chars string
  | Lit string
  | Seq re re
  | Alt re re
  | Opt re
  | StarChars string
  | Group re

text \<open>
  A matcher state is the text still to be read and the text captured by the group so far.
  \<open>reMatch r st\<close> lists the states in which a match of \<open>r\<close> from \<open>st\<close> can end, in the
  order of preference of Go's \<open>regexp\<close>: the first alternative before the second, a
  present optional part before an absent one, a longer repetition before a shorter one.
\<close>

type_synonym reState = "string \<times> string option"

fun reMatch :: "re \<Rightarrow> reState \<Rightarrow> reState list" where
  "reMatch (Chars cs) st =
     (case fst st of [] \<Rightarrow> [] | x # t \<Rightarrow> if x \<in> set cs then [(t, snd st)] else [])"
| "reMatch (Lit w) st =
     (if prefix w (fst st) then [(drop (length w) (fst st), snd st)] else [])"
| "reMatch (Seq a b) st = concat (map (reMatch b) (reMatch a st))"
| "reMatch (Alt a b) st = reMatch a st @ reMatch b st"
| "reMatch (Opt a) st = reMatch a st @ [st]"
| "reMatch (StarChars cs) st =
     map (\<lambda>k. (drop k (fst st), snd st))
       (rev [0 ..< Suc (length (takeWhile (\<lambda>x. x \<in> set cs) (fst st)))])"
| "reMatch (Group a) st =
     map (\<lambda>e. (fst e, Some (take (length (fst st) - length (fst e)) (fst st))))
       (reMatch a st)"

text \<open>
  \<open>FindStringSubmatch\<close> returns the leftmost match and, at that start, the preferred one;
  of its result only the text of group 1 is read.  \<open>None\<close> is the nil slice of no match.
\<close>

fun FindStringSubmatch :: "re \<Rightarrow> string \<Rightarrow> string option" where
  "FindStringSubmatch r [] =
     (case reMatch r ([], None) of [] \<Rightarrow> None | e # es \<Rightarrow> snd e)"
| "FindStringSubmatch r (c # cs) =
     (case reMatch r (c # cs, None) of
        [] \<Rightarrow> FindStringSubmatch r cs
      | e # es \<Rightarrow> snd e)"

text \<open>
  The pattern of the source: \<open>[Cc]opyright\<close>, white space, optionally the copyright sign
  or \<open>(c)\<close>, white space, optionally four digits, white space, a hyphen and white space,
  and the group of four digits.  White space is any number of tabs, line feeds, form
  feeds, carriage returns and spaces, a digit is an ASCII digit, and the copyright sign
  is the two bytes of its UTF-8 encoding.
\<close>

definition spaceChars :: string where
  "spaceChars = [CHR 0x09, CHR 0x0A, CHR 0x0C, CHR 0x0D, CHR 0x20]"

definition reSpace :: re where
  "reSpace = StarChars spaceChars"

definition reDigit :: re where
  "reDigit = Chars ''0123456789''"

definition reYear :: re where
  "reYear = Seq reDigit (Seq reDigit (Seq reDigit reDigit))"

definition copyrightSign :: string where
  "copyrightSign = [CHR 0xC2, CHR 0xA9]"

definition reSign :: re where
  "reSign = Opt (Alt (Lit copyrightSign) (Lit ''(c)''))"

definition reRange :: re where
  "reRange = Opt (Seq reYear (Seq reSpace (Seq (Lit ''-'') reSpace)))"

definition copyrightYearPattern :: re where
  "copyrightYearPattern =
     Seq (Chars ''Cc'')
       (Seq (Lit ''opyright'')
          (Seq reSpace (Seq reSign (Seq reSpace (Seq reRange (Group reYear))))))"

text \<open>\<open>strconv.Atoi\<close> on a string of ASCII digits; any other string is an error here.\<close>

definition digitValue :: "char \<Rightarrow> int option" where
  "digitValue c = map_of (zip ''0123456789'' [0, 1, 2, 3, 4, 5, 6, 7, 8, 9]) c"

fun atoiLoop :: "int \<Rightarrow> string \<Rightarrow> int option" where
  "atoiLoop n [] = Some n"
| "atoiLoop n (c # cs) =
     (case digitValue c of None \<Rightarrow> None | Some d \<Rightarrow> atoiLoop (n * 10 + d) cs)"

definition Atoi :: "string \<Rightarrow> int option" where
  "Atoi s = (if s = [] then None else atoiLoop 0 s)"

text \<open>
  The position of a comment group is the position of its first comment; the parser
  never builds an empty group, for which \<open>Pos\<close> panics (\<open>None\<close>).
\<close>

fun commentPos :: "comment \<Rightarrow> pos" where
  "commentPos (Comment p t) = p"

definition groupPos :: "commentGroup \<Rightarrow> pos option" where
  "groupPos cg = (case List cg of [] \<Rightarrow> None | c # cs \<Rightarrow> Some (commentPos c))"

text \<open>
  The loop that looks for the first comment group before the package clause: \<open>None\<close> is a
  panic, \<open>Some None\<close> the nil pointer of no such group.
\<close>

fun findHeader :: "pos \<Rightarrow> commentGroup list \<Rightarrow> commentGroup option option" where
  "findHeader package [] = Some None"
| "findHeader package (cg # cgs) =
     (case groupPos cg of
        None \<Rightarrow> None
      | Some p \<Rightarrow> if p < package then Some (Some cg) else findHeader package cgs)"

definition checkFile :: "File \<Rightarrow> int \<Rightarrow> diagnostic list option" where
  "checkFile f currentYear =
     (if length (Comments f) = 0 then Some []
      else
        (case findHeader (Package f) (Comments f) of
           None \<Rightarrow> None
         | Some None \<Rightarrow> Some []
         | Some (Some copyrightComment) \<Rightarrow>
             (case FindStringSubmatch copyrightYearPattern (Text copyrightComment) of
                None \<Rightarrow> Some []
              | Some yearStr \<Rightarrow>
                  (case Atoi yearStr of
                     None \<Rightarrow> Some []
                   | Some year \<Rightarrow>
                       (if year < currentYear
                        then (case groupPos copyrightComment of
                                None \<Rightarrow> None
                              | Some p \<Rightarrow>
                                  Some [Diagnostic p (CopyrightYearOutdated year currentYear)])
                        else Some [])))))"

text \<open>
  \<open>run\<close> reads the current year from the clock, here an argument, and checks every file.
\<close>

fun checkFiles :: "File list \<Rightarrow> int \<Rightarrow> diagnostic list option" where
  "checkFiles [] currentYear = Some []"
| "checkFiles (f # fs) currentYear =
     (case checkFile f currentYear of
        None \<Rightarrow> None
      | Some ds \<Rightarrow>
          (case checkFiles fs currentYear of None \<Rightarrow> None | Some es \<Rightarrow> Some (ds @ es)))"

definition currentyear_run :: "pass \<Rightarrow> int \<Rightarrow> diagnostic list option" where
  "currentyear_run p currentYear = checkFiles (Files p) currentYear"

text \<open>
  The rule in the words of the specification.  The header is the first comment group
  before the package clause; its year is the number that the pattern captures.
\<close>

definition headerPos :: "commentGroup \<Rightarrow> pos" where
  "headerPos cg = (case List cg of [] \<Rightarrow> 0 | c # cs \<Rightarrow> commentPos c)"

definition headerGroup :: "File \<Rightarrow> commentGroup option" where
  "headerGroup f = find (\<lambda>cg. headerPos cg < Package f) (Comments f)"

definition copyrightYear :: "string \<Rightarrow> int option" where
  "copyrightYear text =
     (case FindStringSubmatch copyrightYearPattern text of
        None \<Rightarrow> None
      | Some yearStr \<Rightarrow> Atoi yearStr)"

text \<open>
  The shape of a header line: the marker, white space, an optional sign, white space, a
  year of four digits, and for a range white space, a hyphen, white space and a second
  year.
\<close>

definition marker :: "string \<Rightarrow> bool" where
  "marker m \<longleftrightarrow> m = ''Copyright'' \<or> m = ''copyright''"

definition blank :: "string \<Rightarrow> bool" where
  "blank sp \<longleftrightarrow> set sp \<subseteq> set spaceChars"

definition sign :: "string \<Rightarrow> bool" where
  "sign sg \<longleftrightarrow> sg = [] \<or> sg = copyrightSign \<or> sg = ''(c)''"

definition digits4 :: "string \<Rightarrow> bool" where
  "digits4 y \<longleftrightarrow> length y = 4 \<and> set y \<subseteq> set ''0123456789''"

definition noHyphenNext :: "string \<Rightarrow> bool" where
  "noHyphenNext rest \<longleftrightarrow>
     (case dropWhile (\<lambda>x. x \<in> set spaceChars) rest of
        [] \<Rightarrow> True | x # xs \<Rightarrow> x \<noteq> CHR ''-'')"

text \<open>
  The reading of the marker that ignores the case of every letter, as a pattern.
\<close>

definition anyCaseMarker :: "re \<Rightarrow> re" where
  "anyCaseMarker k =
     Seq (Chars ''Cc'') (Seq (Chars ''Oo'') (Seq (Chars ''Pp'') (Seq (Chars ''Yy'')
       (Seq (Chars ''Rr'') (Seq (Chars ''Ii'') (Seq (Chars ''Gg'') (Seq (Chars ''Hh'')
         (Seq (Chars ''Tt'') k))))))))"

definition anyCasePattern :: re where
  "anyCasePattern =
     anyCaseMarker (Seq reSpace (Seq reSign (Seq reSpace (Seq reRange (Group reYear)))))"

definition firstMatch :: "re \<Rightarrow> reState \<Rightarrow> reState \<Rightarrow> bool" where
  "firstMatch r st e \<longleftrightarrow> (\<exists>es. reMatch r st = e # es)"

text \<open>A file whose header names the year 2024, and one whose header is a range.\<close>

definition header2024 :: File where
  "header2024 =
     \<lparr> Package = 20, Decls = [],
       Comments =
         [\<lparr> List = [Comment 1 (''// Copyright '' @ copyrightSign @ '' 2024 Attestant Limited.'')],
            Text = ''Copyright '' @ copyrightSign @ '' 2024 Attestant Limited.'' \<rparr>,
          \<lparr> List = [Comment 30 ''// Package example.''], Text = ''Package example.'' \<rparr>] \<rparr>"

definition headerRange :: File where
  "headerRange =
     \<lparr> Package = 20, Decls = [],
       Comments =
         [\<lparr> List = [Comment 1 ''// copyright (c) 2023 - 2026 Attestant Limited.''],
            Text = ''copyright (c) 2023 - 2026 Attestant Limited.'' \<rparr>] \<rparr>"

section \<open>Interface compliance checks (analyzers/interfacecheck)\<close>

text \<open>
  The package scope of the type checker.  A method is its name with its signature.  An
  object of the scope is a type name with its underlying type, the method set of the type
  and the method set of the pointer to it, or some other object.  An interface carries
  its methods, so that \<open>NumMethods\<close> is their number.
\<close>

type_synonym goMethod = "string \<times> string"

datatype underlying = UInterface "goMethod list" | UStruct | UOther

datatype scopeObject =
    TypeName underlying "goMethod list" "goMethod list"
  | OtherObject

record pkgScope =
  Names :: "string list"
  Lookup :: "string \<Rightarrow> scopeObject option"

text \<open>
  \<open>types.Implements\<close> for a type that is not an interface: every method of the interface
  is in the method set, with the same signature.
\<close>

definition Implements :: "goMethod list \<Rightarrow> goMethod list \<Rightarrow> bool" where
  "Implements methodSet iface = list_all (\<lambda>m. m \<in> set methodSet) iface"

text \<open>
  The maps \<open>interfaces\<close> and \<open>structs\<close> are keyed by name; a Go map holds a key once, and
  the order in which it is ranged over is not specified.  The model ranges in the order
  of the names of the scope.
\<close>

definition isQualifyingInterface :: "pkgScope \<Rightarrow> string \<Rightarrow> bool" where
  "isQualifyingInterface sc name =
     (case Lookup sc name of
        Some (TypeName (UInterface ms) v p) \<Rightarrow> length ms > 0
      | _ \<Rightarrow> False)"

definition isStruct :: "pkgScope \<Rightarrow> string \<Rightarrow> bool" where
  "isStruct sc name =
     (case Lookup sc name of Some (TypeName UStruct v p) \<Rightarrow> True | _ \<Rightarrow> False)"

definition interfaceNames :: "pkgScope \<Rightarrow> string list" where
  "interfaceNames sc = remdups (filter (isQualifyingInterface sc) (Names sc))"

definition structNames :: "pkgScope \<Rightarrow> string list" where
  "structNames sc = remdups (filter (isStruct sc) (Names sc))"

definition interfaceMethods :: "pkgScope \<Rightarrow> string \<Rightarrow> goMethod list" where
  "interfaceMethods sc name =
     (case Lookup sc name of Some (TypeName (UInterface ms) v p) \<Rightarrow> ms | _ \<Rightarrow> [])"

fun getInterfaceName :: "expr option \<Rightarrow> string" where
  "getInterfaceName (Some (IdentExpr n)) = n"
| "getInterfaceName (Some (SelectorExpr x sel)) = sel"
| "getInterfaceName _ = ''''"

fun starTypeName :: "expr \<Rightarrow> string" where
  "starTypeName (ParenExpr (StarExpr (IdentExpr n))) = n"
| "starTypeName (ParenExpr (StarExpr (SelectorExpr x sel))) = sel"
| "starTypeName _ = ''''"

fun isNilIdent :: "expr \<Rightarrow> bool" where
  "isNilIdent (IdentExpr n) = (n = ''nil'')"
| "isNilIdent _ = False"

fun getStructNameFromNilCast :: "expr list \<Rightarrow> string" where
  "getStructNameFromNilCast [CallExpr f args] =
     (if length args \<noteq> 1 then ''''
      else if \<not> isNilIdent (args ! 0) then ''''
      else starTypeName f)"
| "getStructNameFromNilCast _ = ''''"

definition checkKey :: "string \<Rightarrow> string \<Rightarrow> string" where
  "checkKey ifaceName structName = ifaceName @ '':'' @ structName"

fun existingCheckOfSpec :: "spec \<Rightarrow> string list" where
  "existingCheckOfSpec (ValueSpec names t vals) =
     (if length names \<noteq> 1 \<or> identName (names ! 0) \<noteq> ''_'' then []
      else
        (let ifaceName = getInterfaceName t in
         if ifaceName = '''' then []
         else
           (let structName = getStructNameFromNilCast vals in
            if structName = '''' then []
            else [checkKey ifaceName structName])))"
| "existingCheckOfSpec _ = []"

fun existingChecksOfDecl :: "decl \<Rightarrow> string list" where
  "existingChecksOfDecl (GenDecl tok specs) =
     (if tok \<noteq> T_VAR then [] else concat (map existingCheckOfSpec specs))"
| "existingChecksOfDecl _ = []"

definition collectExistingChecks :: "pass \<Rightarrow> string list" where
  "collectExistingChecks p =
     concat (map (\<lambda>f. concat (map existingChecksOfDecl (Decls f))) (Files p))"

definition NoPos :: pos where
  "NoPos = 0"

fun typeSpecPos :: "string \<Rightarrow> spec \<Rightarrow> pos option" where
  "typeSpecPos name (TypeSpec n t) = (if identName n = name then Some (identPos n) else None)"
| "typeSpecPos name _ = None"

fun firstSome :: "('a \<Rightarrow> 'b option) \<Rightarrow> 'a list \<Rightarrow> 'b option" where
  "firstSome f [] = None"
| "firstSome f (x # xs) = (case f x of Some y \<Rightarrow> Some y | None \<Rightarrow> firstSome f xs)"

fun declPos :: "string \<Rightarrow> decl \<Rightarrow> pos option" where
  "declPos name (GenDecl tok specs) = firstSome (typeSpecPos name) specs"
| "declPos name _ = None"

definition findStructPos :: "pass \<Rightarrow> string \<Rightarrow> pos" where
  "findStructPos p name =
     (case firstSome (\<lambda>f. firstSome (declPos name) (Decls f)) (Files p) of
        Some q \<Rightarrow> q
      | None \<Rightarrow> NoPos)"

text \<open>The body of the inner loop of \<open>run\<close> for one struct and one interface.\<close>

definition checkPair ::
  "pass \<Rightarrow> pkgScope \<Rightarrow> string list \<Rightarrow> string \<Rightarrow> string \<Rightarrow> diagnostic list" where
  "checkPair p sc existingChecks structName ifaceName =
     (case Lookup sc structName of
        Some (TypeName u structType ptrType) \<Rightarrow>
          (let iface = interfaceMethods sc ifaceName in
           if \<not> Implements structType iface \<and> \<not> Implements ptrType iface then []
           else
             (let key = checkKey ifaceName structName in
              if key \<in> set existingChecks then []
              else
                (let q = findStructPos p structName in
                 if q = NoPos then []
                 else [Diagnostic q (StructImplementsInterface structName ifaceName)])))
      | _ \<Rightarrow> [])"

definition interfacecheck_run :: "pass \<Rightarrow> pkgScope \<Rightarrow> diagnostic list" where
  "interfacecheck_run p sc =
     (let existingChecks = collectExistingChecks p
      in concat (map (\<lambda>structName.
                        concat (map (checkPair p sc existingChecks structName)
                                  (interfaceNames sc)))
                   (structNames sc)))"

text \<open>
  The rule in the words of the specification.  A struct satisfies an interface when its
  method set or that of the pointer to it has every method of the interface.  A compliance
  assertion is a variable declaration of the one name \<open>_\<close> whose type names the interface,
  directly or through a package qualifier, and whose one value converts \<open>nil\<close> to a
  pointer to the named type.
\<close>

definition satisfies :: "pkgScope \<Rightarrow> string \<Rightarrow> string \<Rightarrow> bool" where
  "satisfies sc structName ifaceName \<longleftrightarrow>
     (case Lookup sc structName of
        Some (TypeName u valueSet pointerSet) \<Rightarrow>
          Implements valueSet (interfaceMethods sc ifaceName)
          \<or> Implements pointerSet (interfaceMethods sc ifaceName)
      | _ \<Rightarrow> False)"

fun namedBy :: "expr \<Rightarrow> string option" where
  "namedBy (IdentExpr n) = Some n"
| "namedBy (SelectorExpr x sel) = Some sel"
| "namedBy _ = None"

fun discardName :: "ident list \<Rightarrow> bool" where
  "discardName [Ident n q] = (n = ''_'')"
| "discardName _ = False"

fun nilCastTarget :: "expr list \<Rightarrow> string option" where
  "nilCastTarget [CallExpr (ParenExpr (StarExpr s)) [IdentExpr v]] =
     (if v = ''nil'' then namedBy s else None)"
| "nilCastTarget _ = None"

fun assertedPair :: "spec \<Rightarrow> (string \<times> string) option" where
  "assertedPair (ValueSpec names (Some t) vals) =
     (if discardName names
      then (case (namedBy t, nilCastTarget vals) of
              (Some i, Some st) \<Rightarrow> Some (i, st)
            | _ \<Rightarrow> None)
      else None)"
| "assertedPair _ = None"

fun varSpecs :: "decl \<Rightarrow> spec list" where
  "varSpecs (GenDecl tok specs) = (if tok = T_VAR then specs else [])"
| "varSpecs _ = []"

definition assertions :: "pass \<Rightarrow> (string \<times> string) list" where
  "assertions p =
     concat (map (\<lambda>f. concat (map (\<lambda>d. List.map_filter assertedPair (varSpecs d)) (Decls f)))
            (Files p))"

definition goIdentifier :: "string \<Rightarrow> bool" where
  "goIdentifier n \<longleftrightarrow> n \<noteq> [] \<and> CHR '':'' \<notin> set n"

fun forPair :: "string \<Rightarrow> string \<Rightarrow> diagnostic \<Rightarrow> bool" where
  "forPair s i (Diagnostic q (StructImplementsInterface s' i')) = (s' = s \<and> i' = i)"
| "forPair s i _ = False"

fun forInterface :: "string \<Rightarrow> diagnostic \<Rightarrow> bool" where
  "forInterface i (Diagnostic q (StructImplementsInterface s' i')) = (i' = i)"
| "forInterface i _ = False"

fun forStruct :: "string \<Rightarrow> diagnostic \<Rightarrow> bool" where
  "forStruct s (Diagnostic q (StructImplementsInterface s' i')) = (s' = s)"
| "forStruct s _ = False"

text \<open>The test data of the analyzer (testdata/src/interfacecheck).\<close>

definition readSig :: goMethod where
  "readSig = (''Read'', ''func(p []byte) (n int, err error)'')"
definition writeSig :: goMethod where
  "writeSig = (''Write'', ''func(p []byte) (n int, err error)'')"
definition closeSig :: goMethod where
  "closeSig = (''Close'', ''func() error'')"

definition interfacecheckScope :: pkgScope where
  "interfacecheckScope =
     \<lparr> Names = [''BadCloser'', ''BadWriter'', ''Closer'', ''EmptyInterface'', ''GoodReader'',
                ''Helper'', ''Reader'', ''Writer''],
       Lookup = map_of
         [(''BadCloser'', TypeName UStruct [] [closeSig]),
          (''BadWriter'', TypeName UStruct [] [writeSig]),
          (''Closer'', TypeName (UInterface [closeSig]) [closeSig] [closeSig]),
          (''EmptyInterface'', TypeName (UInterface []) [] []),
          (''GoodReader'', TypeName UStruct [] [readSig]),
          (''Helper'', TypeName UStruct [] [(''DoSomething'', ''func()'')]),
          (''Reader'', TypeName (UInterface [readSig]) [readSig] [readSig]),
          (''Writer'', TypeName (UInterface [writeSig]) [writeSig] [writeSig])] \<rparr>"

definition interfacecheckExample :: pass where
  "interfacecheckExample =
     \<lparr> Files =
         [\<lparr> Package = 1,
            Decls =
              [GenDecl T_TYPE [TypeSpec (Ident ''Reader'' 10) InterfaceType],
               GenDecl T_TYPE [TypeSpec (Ident ''Writer'' 20) InterfaceType],
               GenDecl T_TYPE [TypeSpec (Ident ''Closer'' 30) InterfaceType],
               GenDecl T_TYPE [TypeSpec (Ident ''EmptyInterface'' 40) InterfaceType],
               GenDecl T_TYPE [TypeSpec (Ident ''GoodReader'' 50) (StructType (Some []))],
               GenDecl T_VAR
                 [ValueSpec [Ident ''_'' 60] (Some (IdentExpr ''Reader''))
                    [CallExpr (ParenExpr (StarExpr (IdentExpr ''GoodReader'')))
                       [IdentExpr ''nil'']]],
               GenDecl T_TYPE [TypeSpec (Ident ''BadWriter'' 70) (StructType (Some []))],
               GenDecl T_TYPE [TypeSpec (Ident ''BadCloser'' 80) (StructType (Some []))],
               GenDecl T_TYPE [TypeSpec (Ident ''Helper'' 90) (StructType (Some []))]],
            Comments = [] \<rparr>],
       ObjectOf = (\<lambda>i. None) \<rparr>"

section \<open>Theorems\<close>

subsection \<open>Config.Merge\<close>

text \<open>
  C10.  For every receiver and every argument, \<open>Merge\<close> changes at most the two list
  fields of the receiver: the eight boolean enable fields are those of the receiver,
  whatever the argument's booleans are, each list field is either the receiver's or the
  argument's, and a nil argument leaves the receiver as it is.
\<close>

theorem Merge_frame:
  "EnableNoPkgLogger (Merge c other) = EnableNoPkgLogger c
   \<and> EnableEnumIota (Merge c other) = EnableEnumIota c
   \<and> EnableCurrentYear (Merge c other) = EnableCurrentYear c
   \<and> EnableCapitalComment (Merge c other) = EnableCapitalComment c
   \<and> EnableFuncOpts (Merge c other) = EnableFuncOpts c
   \<and> EnableRawString (Merge c other) = EnableRawString c
   \<and> EnableStructFieldOrder (Merge c other) = EnableStructFieldOrder c
   \<and> EnableInterfaceCheck (Merge c other) = EnableInterfaceCheck c
   \<and> (\<exists>ps ss. Merge c other = c\<lparr>LoggerTypePatterns := ps, EnumTypeSuffixes := ss\<rparr>)
   \<and> Merge c None = c"
proof -
  have upd: "Merge c other =
      c\<lparr>LoggerTypePatterns := LoggerTypePatterns (Merge c other),
        EnumTypeSuffixes := EnumTypeSuffixes (Merge c other)\<rparr>"
    by (cases other) (simp_all add: Merge_def Let_def)
  have frame: "\<exists>ps ss. Merge c other = c\<lparr>LoggerTypePatterns := ps, EnumTypeSuffixes := ss\<rparr>"
    using upd by (intro exI)
  have bools:
    "EnableNoPkgLogger (Merge c other) = EnableNoPkgLogger c"
    "EnableEnumIota (Merge c other) = EnableEnumIota c"
    "EnableCurrentYear (Merge c other) = EnableCurrentYear c"
    "EnableCapitalComment (Merge c other) = EnableCapitalComment c"
    "EnableFuncOpts (Merge c other) = EnableFuncOpts c"
    "EnableRawString (Merge c other) = EnableRawString c"
    "EnableStructFieldOrder (Merge c other) = EnableStructFieldOrder c"
    "EnableInterfaceCheck (Merge c other) = EnableInterfaceCheck c"
    by (cases other; simp add: Merge_def Let_def)+
  have nil: "Merge c None = c"
    by (simp add: Merge_def)
  from bools frame nil show ?thesis
    by (intro conjI)
qed

subsection \<open>Plugin initialisation\<close>














subsection \<open>Struct field order\<close>

lemmas lower_defs = ToLower_def toLowerChar_def upperLetters_def lowerLetters_def

lemmas category_defs = categoryUnknown_def categoryLogger_def categoryMetrics_def
  categoryDependency_def categoryData_def categorySync_def

lemma categorizeField_known: "categorizeField name typ \<noteq> categoryUnknown"
  by (simp add: categorizeField_def Let_def category_defs)

lemma categorizeField_positive: "0 < categorizeField name typ"
  by (simp add: categorizeField_def Let_def category_defs)

text \<open>
  C7.  As stated (a synchronization primitive or channel type is classified as
  synchronization whatever the field is called) the claim fails: the name tests for
  logger and metrics come first.  A field \<open>log sync.Mutex\<close> is a logger field and a field
  \<open>metrics chan int\<close> is a metrics field.
\<close>

theorem categorizeField_sync_counterexample:
  "isSyncType (SelectorExpr (IdentExpr ''sync'') ''Mutex'')
   \<and> categorizeField ''log'' (SelectorExpr (IdentExpr ''sync'') ''Mutex'') = categoryLogger
   \<and> isChanType (ChanType (IdentExpr ''int''))
   \<and> categorizeField ''metrics'' (ChanType (IdentExpr ''int'')) = categoryMetrics
   \<and> categoryLogger \<noteq> categorySync \<and> categoryMetrics \<noteq> categorySync"
  by (simp add: categorizeField_def loggerName_def metricsName_def lower_defs
      HasSuffix_def suffix_to_prefix category_defs)

text \<open>
  C7, amended.  For every named struct field whose lower-cased name is neither a logger
  name nor a metrics name, the classification assigns the synchronization category
  whenever the field's type is a synchronization primitive or a channel type; a field
  that matches no heuristic is in the data category.
\<close>

theorem categorizeField_sync:
  "((isSyncType typ \<or> isChanType typ)
      \<and> \<not> loggerName (ToLower name) \<and> \<not> metricsName (ToLower name)
      \<longrightarrow> categorizeField name typ = categorySync)
   \<and> (\<not> loggerName (ToLower name) \<and> \<not> metricsName (ToLower name)
      \<and> \<not> isSyncType typ \<and> \<not> syncName (ToLower name) \<and> \<not> isChanType typ
      \<and> \<not> dependencyName (ToLower name)
      \<longrightarrow> categorizeField name typ = categoryData)"
  by (simp add: categorizeField_def Let_def)

theorem categorizeField_sync_witness:
  "(isSyncType (SelectorExpr (IdentExpr ''sync'') ''RWMutex'')
      \<and> \<not> loggerName (ToLower ''Client'') \<and> \<not> metricsName (ToLower ''Client''))
   \<and> categorizeField ''Client'' (SelectorExpr (IdentExpr ''sync'') ''RWMutex'') = categorySync
   \<and> (isChanType (ChanType (StructType (Some [])))
      \<and> \<not> loggerName (ToLower ''done'') \<and> \<not> metricsName (ToLower ''done''))
   \<and> categorizeField ''done'' (ChanType (StructType (Some []))) = categorySync
   \<and> (\<not> loggerName (ToLower ''config'') \<and> \<not> metricsName (ToLower ''config'')
      \<and> \<not> isSyncType InterfaceType \<and> \<not> syncName (ToLower ''config'')
      \<and> \<not> isChanType InterfaceType \<and> \<not> dependencyName (ToLower ''config''))
   \<and> categorizeField ''config'' InterfaceType = categoryData"
proof -
  have a: "isSyncType (SelectorExpr (IdentExpr ''sync'') ''RWMutex'')
      \<and> \<not> loggerName (ToLower ''Client'') \<and> \<not> metricsName (ToLower ''Client'')"
    by (simp add: loggerName_def metricsName_def lower_defs HasSuffix_def suffix_to_prefix)
  have b: "isChanType (ChanType (StructType (Some [])))
      \<and> \<not> loggerName (ToLower ''done'') \<and> \<not> metricsName (ToLower ''done'')"
    by (simp add: loggerName_def metricsName_def lower_defs HasSuffix_def suffix_to_prefix)
  have c: "\<not> loggerName (ToLower ''config'') \<and> \<not> metricsName (ToLower ''config'')
      \<and> \<not> isSyncType InterfaceType \<and> \<not> syncName (ToLower ''config'')
      \<and> \<not> isChanType InterfaceType \<and> \<not> dependencyName (ToLower ''config'')"
    by (simp add: loggerName_def metricsName_def syncName_def dependencyName_def lower_defs
        HasSuffix_def suffix_to_prefix)
  from a categorizeField_sync [of "SelectorExpr (IdentExpr ''sync'') ''RWMutex''" "''Client''"]
  have a': "categorizeField ''Client'' (SelectorExpr (IdentExpr ''sync'') ''RWMutex'') = categorySync"
    by blast
  from b categorizeField_sync [of "ChanType (StructType (Some []))" "''done''"]
  have b': "categorizeField ''done'' (ChanType (StructType (Some []))) = categorySync"
    by blast
  from c categorizeField_sync [of InterfaceType "''config''"]
  have c': "categorizeField ''config'' InterfaceType = categoryData"
    by blast
  from a a' b b' c c' show ?thesis
    by blast
qed

lemma checkField_namedFields:
  "foldl (checkField structName) st fs
   = foldl (\<lambda>st nt. checkName structName (snd nt) st (fst nt)) st (namedFields fs)"
proof (induction fs arbitrary: st)
  case Nil
  show ?case by (simp add: namedFields_def)
next
  case (Cons f fs)
  obtain ns t where f: "f = Field ns t"
    by (cases f)
  have "checkField structName st f
        = foldl (\<lambda>st nt. checkName structName (snd nt) st (fst nt)) st (fieldNames f)"
    by (simp add: f foldl_map)
  with Cons.IH show ?case
    by (simp add: namedFields_def)
qed

lemma checkName_step:
  "checkName structName (snd x) (fieldCat p, identName (fst p), ds) (fst x)
   = (fieldCat x, identName (fst x),
      ds @ (if outOfOrder (p, x) then [orderDiagnostic structName (p, x)] else []))"
  using categorizeField_known [of "identName (fst x)" "snd x"]
  by (simp add: checkName_def Let_def fieldCat_def outOfOrder_def orderDiagnostic_def)

lemma checkName_first:
  "checkName structName (snd x) (0, [], []) (fst x) = (fieldCat x, identName (fst x), [])"
  using categorizeField_known [of "identName (fst x)" "snd x"]
    categorizeField_positive [of "identName (fst x)" "snd x"]
  by (simp add: checkName_def Let_def fieldCat_def)

lemma checkName_loop:
  "snd (snd (foldl (\<lambda>st nt. checkName structName (snd nt) st (fst nt))
               (fieldCat p, identName (fst p), ds) xs))
   = ds @ map (orderDiagnostic structName) (filter outOfOrder (zip (p # xs) xs))"
proof (induction xs arbitrary: p ds)
  case Nil
  show ?case by simp
next
  case (Cons x xs)
  show ?case
    by (simp add: checkName_step Cons.IH)
qed

lemma checkStructFieldOrder_pairs:
  "checkStructFieldOrder structName (Some fs)
   = map (orderDiagnostic structName)
       (filter outOfOrder (zip (namedFields fs) (tl (namedFields fs))))"
proof (cases "namedFields fs")
  case Nil
  then show ?thesis
    by (simp add: checkStructFieldOrder_def checkField_namedFields)
next
  case (Cons x xs)
  then have "fs \<noteq> []"
    by (auto simp: namedFields_def)
  then show ?thesis
    using checkName_loop [of structName x "[]" xs]
    by (simp add: checkStructFieldOrder_def checkField_namedFields Cons checkName_first)
qed

lemma sorted_no_outOfOrder:
  "sorted (map fieldCat xs) \<Longrightarrow> filter outOfOrder (zip xs (tl xs)) = []"
proof (induction xs)
  case Nil
  show ?case by simp
next
  case (Cons x xs)
  show ?case
  proof (cases xs)
    case Nil
    then show ?thesis by simp
  next
    case (Cons y ys)
    with Cons.prems Cons.IH show ?thesis
      by (simp add: outOfOrder_def)
  qed
qed

text \<open>
  C4.  As stated (a field is flagged exactly when its category precedes a category seen
  anywhere earlier in the struct) the claim fails: the walk remembers the category of
  the previous field only.  In \<open>mu sync.Mutex; log interface{}; config interface{}\<close> the
  data field \<open>config\<close> comes after the synchronization field \<open>mu\<close> and is not flagged.
\<close>

theorem checkStructFieldOrder_seen_counterexample:
  "namedFields [Field [Ident ''mu'' 1] (SelectorExpr (IdentExpr ''sync'') ''Mutex''),
                Field [Ident ''log'' 2] InterfaceType,
                Field [Ident ''config'' 3] InterfaceType]
     = [(Ident ''mu'' 1, SelectorExpr (IdentExpr ''sync'') ''Mutex''),
        (Ident ''log'' 2, InterfaceType)] @ [(Ident ''config'' 3, InterfaceType)]
   \<and> precedesSeenEarlier
        [(Ident ''mu'' 1, SelectorExpr (IdentExpr ''sync'') ''Mutex''),
         (Ident ''log'' 2, InterfaceType)] (Ident ''config'' 3, InterfaceType)
   \<and> checkStructFieldOrder ''BadService''
        (Some [Field [Ident ''mu'' 1] (SelectorExpr (IdentExpr ''sync'') ''Mutex''),
               Field [Ident ''log'' 2] InterfaceType,
               Field [Ident ''config'' 3] InterfaceType])
     = [Diagnostic 2 (FieldShouldComeBefore ''log'' categoryLogger ''mu'' categorySync
                        ''BadService'')]"
  by (simp add: namedFields_def precedesSeenEarlier_def fieldCat_def checkStructFieldOrder_def
      checkName_def categorizeField_def loggerName_def metricsName_def syncName_def
      dependencyName_def lower_defs HasSuffix_def suffix_to_prefix category_defs)

text \<open>
  C4, amended.  For every struct declaration, walking its named (non-embedded) fields in
  declared order, the rule flags exactly those fields whose category strictly precedes,
  on the ranking logger < metrics < dependency < data < synchronization, the category of
  the named field immediately before it; consequently a struct whose fields appear in
  the order logger, metrics, dependency, data, synchronization yields no diagnostic.
\<close>

theorem checkStructFieldOrder_adjacent:
  "checkStructFieldOrder structName (Some fs)
     = map (orderDiagnostic structName)
         (filter outOfOrder (zip (namedFields fs) (tl (namedFields fs))))
   \<and> (sorted (map fieldCat (namedFields fs))
        \<longrightarrow> checkStructFieldOrder structName (Some fs) = [])
   \<and> categoryLogger < categoryMetrics \<and> categoryMetrics < categoryDependency
   \<and> categoryDependency < categoryData \<and> categoryData < categorySync"
  by (simp add: checkStructFieldOrder_pairs sorted_no_outOfOrder category_defs)

theorem checkStructFieldOrder_adjacent_witness:
  "sorted (map fieldCat (namedFields
      [Field [Ident ''log'' 1] InterfaceType,
       Field [Ident ''metrics'' 2] InterfaceType,
       Field [Ident ''client'' 3, Ident ''db'' 4] InterfaceType,
       Field [Ident ''config'' 5] InterfaceType,
       Field [Ident ''name'' 6] (IdentExpr ''string''),
       Field [Ident ''mu'' 7] (SelectorExpr (IdentExpr ''sync'') ''Mutex''),
       Field [Ident ''done'' 8] (ChanType (StructType (Some [])))]))
   \<and> checkStructFieldOrder ''GoodService''
        (Some [Field [Ident ''log'' 1] InterfaceType,
               Field [Ident ''metrics'' 2] InterfaceType,
               Field [Ident ''client'' 3, Ident ''db'' 4] InterfaceType,
               Field [Ident ''config'' 5] InterfaceType,
               Field [Ident ''name'' 6] (IdentExpr ''string''),
               Field [Ident ''mu'' 7] (SelectorExpr (IdentExpr ''sync'') ''Mutex''),
               Field [Ident ''done'' 8] (ChanType (StructType (Some [])))]) = []"
proof -
  let ?fs = "[Field [Ident ''log'' 1] InterfaceType,
       Field [Ident ''metrics'' 2] InterfaceType,
       Field [Ident ''client'' 3, Ident ''db'' 4] InterfaceType,
       Field [Ident ''config'' 5] InterfaceType,
       Field [Ident ''name'' 6] (IdentExpr ''string''),
       Field [Ident ''mu'' 7] (SelectorExpr (IdentExpr ''sync'') ''Mutex''),
       Field [Ident ''done'' 8] (ChanType (StructType (Some [])))]"
  have s: "sorted (map fieldCat (namedFields ?fs))"
    by (simp add: namedFields_def fieldCat_def categorizeField_def loggerName_def
        metricsName_def syncName_def dependencyName_def lower_defs HasSuffix_def
        suffix_to_prefix category_defs)
  from checkStructFieldOrder_adjacent [of "''GoodService''" ?fs] s show ?thesis
    by blast
qed

subsection \<open>Package-level loggers\<close>

lemma HasPrefix_marker: "HasPrefix s ''*'' = hasMarker s"
  by (cases s) (auto simp: HasPrefix_def hasMarker_def)

lemma TrimPrefix_marker: "hasMarker s \<Longrightarrow> TrimPrefix s ''*'' = tl s"
  by (cases s) (simp_all add: TrimPrefix_def HasPrefix_marker hasMarker_def)

lemma HasSuffix_single: "HasSuffix s [c] \<longleftrightarrow> s \<noteq> [] \<and> last s = c"
  by (cases s rule: rev_cases) (auto simp: HasSuffix_def suffix_def)

lemma boundary_check_append:
  "(TrimSuffix (pre @ pattern) pattern = []
      \<or> HasSuffix (TrimSuffix (pre @ pattern) pattern) ''/''
      \<or> HasSuffix (TrimSuffix (pre @ pattern) pattern) ''.'')
   \<longleftrightarrow> (length (pre @ pattern) = length pattern
        \<or> (pre @ pattern) ! (length (pre @ pattern) - length pattern - 1)
            \<in> {CHR ''/'', CHR ''.''})"
proof -
  have t: "TrimSuffix (pre @ pattern) pattern = pre"
    by (simp add: TrimSuffix_def HasSuffix_def suffix_def)
  show ?thesis
  proof (cases "pre = []")
    case True
    with t show ?thesis by auto
  next
    case False
    then have "(pre @ pattern) ! (length (pre @ pattern) - length pattern - 1) = last pre"
      by (simp add: nth_append last_conv_nth)
    with False show ?thesis
      by (auto simp: t HasSuffix_single)
  qed
qed

lemma boundary_check:
  assumes "HasSuffix typeName pattern"
  shows "(TrimSuffix typeName pattern = []
            \<or> HasSuffix (TrimSuffix typeName pattern) ''/''
            \<or> HasSuffix (TrimSuffix typeName pattern) ''.'')
         \<longleftrightarrow> (length typeName = length pattern
              \<or> typeName ! (length typeName - length pattern - 1) \<in> {CHR ''/'', CHR ''.''})"
proof -
  from assms obtain pre where tn: "typeName = pre @ pattern"
    by (auto simp: HasSuffix_def suffix_def)
  show ?thesis
    unfolding tn by (rule boundary_check_append)
qed

lemma suffix_check:
  "(if HasSuffix typeName pattern
    then (let pre = TrimSuffix typeName pattern
          in (if pre = [] \<or> HasSuffix pre ''/'' \<or> HasSuffix pre ''.'' then True else False))
    else False)
   = endsAtBoundary typeName pattern"
  using boundary_check [of typeName pattern]
  by (auto simp: endsAtBoundary_def Let_def HasSuffix_def)

lemma matchTypePattern_matches: "matchTypePattern typeName pattern = matches typeName pattern"
proof (cases "hasMarker pattern")
  case True
  show ?thesis
  proof (cases "hasMarker typeName")
    case t: True
    have "matchTypePattern typeName pattern = endsAtBoundary (tl typeName) (tl pattern)"
      unfolding matchTypePattern_def
      using True t suffix_check [of "tl typeName" "tl pattern"]
      by (simp add: HasPrefix_marker TrimPrefix_marker)
    with True t show ?thesis by (simp add: matches_def)
  next
    case False
    with True show ?thesis
      by (simp add: matchTypePattern_def matches_def HasPrefix_marker)
  qed
next
  case False
  show ?thesis
  proof (cases "hasMarker typeName")
    case True
    with False show ?thesis
      by (simp add: matchTypePattern_def matches_def HasPrefix_marker)
  next
    case f: False
    have "matchTypePattern typeName pattern = endsAtBoundary typeName pattern"
      unfolding matchTypePattern_def
      using False f suffix_check [of typeName pattern]
      by (simp add: HasPrefix_marker)
    with False f show ?thesis by (simp add: matches_def)
  qed
qed

lemma checkLoggerSpec_names:
  "checkLoggerSpec ps p sp = concat (map (checkLoggerName ps p) (specValueNames sp))"
  by (cases sp) simp_all

lemma checkLoggerDecl_names:
  "checkLoggerDecl ps p d = concat (map (checkLoggerName ps p) (declValueNames d))"
proof (cases d)
  case (GenDecl tok specs)
  have "concat (map (checkLoggerSpec ps p) specs)
        = concat (map (checkLoggerName ps p) (concat (map specValueNames specs)))"
    by (induction specs) (simp_all add: checkLoggerSpec_names)
  with GenDecl show ?thesis by simp
qed simp_all

lemma nopkglogger_run_names:
  "nopkglogger_run ps p = concat (map (checkLoggerName ps p) (topLevelValueNames p))"
proof -
  have d: "concat (map (checkLoggerDecl ps p) ds)
           = concat (map (checkLoggerName ps p) (concat (map declValueNames ds)))" for ds
    by (induction ds) (simp_all add: checkLoggerDecl_names)
  have "concat (map (\<lambda>f. concat (map (checkLoggerDecl ps p) (Decls f))) fs)
        = concat (map (checkLoggerName ps p)
            (concat (map (\<lambda>f. concat (map declValueNames (Decls f))) fs)))" for fs
    by (induction fs) (simp_all add: d)
  then show ?thesis
    by (simp add: nopkglogger_run_def topLevelValueNames_def)
qed

lemma checkLoggerName_cases:
  "checkLoggerName ps p name =
     (case ObjectOf p name of
        None \<Rightarrow> []
      | Some obj \<Rightarrow>
          if Parent obj = Some (PkgScope obj)
             \<and> (\<exists>pattern \<in> set ps. matches (typeString (Type obj)) pattern)
          then [Diagnostic (identPos name) (PackageLevelLogger (identName name))]
          else [])"
  by (simp add: checkLoggerName_def isLoggerType_def list_ex_iff matchTypePattern_matches
      split: option.splits)

lemma ident_eq: "identPos a = identPos b \<Longrightarrow> identName a = identName b \<Longrightarrow> a = b"
  by (cases a; cases b) simp

lemma checkLoggerName_iff:
  "d \<in> set (checkLoggerName ps p name) \<longleftrightarrow>
     (\<exists>obj. ObjectOf p name = Some obj \<and> Parent obj = Some (PkgScope obj)
        \<and> (\<exists>pattern \<in> set ps. matches (typeString (Type obj)) pattern)
        \<and> d = Diagnostic (identPos name) (PackageLevelLogger (identName name)))"
  by (cases "ObjectOf p name") (auto simp: checkLoggerName_cases)

lemma nopkglogger_run_iff:
  "d \<in> set (nopkglogger_run ps p) \<longleftrightarrow>
     (\<exists>name \<in> set (topLevelValueNames p). \<exists>obj.
        ObjectOf p name = Some obj \<and> Parent obj = Some (PkgScope obj)
        \<and> (\<exists>pattern \<in> set ps. matches (typeString (Type obj)) pattern)
        \<and> d = Diagnostic (identPos name) (PackageLevelLogger (identName name)))"
  unfolding nopkglogger_run_names
  by (simp add: checkLoggerName_iff)

text \<open>
  C1.  \<open>matchTypePattern\<close> is the matching rule of the specification.  For every name
  declared by a value spec at the top level of a file whose object lies in the package
  scope, the rule reports that name iff the type string of the object matches at least
  one configured pattern; every diagnostic is for such a name; a function declaration
  and a type spec yield nothing, whatever the body or the struct fields declare, and a
  name whose object is not in the package scope is never reported.
\<close>

theorem LoggerPlacement:
  "matchTypePattern typeName pattern = matches typeName pattern
   \<and> (name \<in> set (topLevelValueNames p) \<and> ObjectOf p name = Some obj
        \<and> Parent obj = Some (PkgScope obj)
      \<longrightarrow> (Diagnostic (identPos name) (PackageLevelLogger (identName name))
             \<in> set (nopkglogger_run ps p)
           \<longleftrightarrow> (\<exists>pat \<in> set ps. matches (typeString (Type obj)) pat)))
   \<and> (\<forall>d \<in> set (nopkglogger_run ps p).
        \<exists>n \<in> set (topLevelValueNames p). \<exists>ob.
          ObjectOf p n = Some ob \<and> Parent ob = Some (PkgScope ob)
          \<and> (\<exists>pat \<in> set ps. matches (typeString (Type ob)) pat)
          \<and> d = Diagnostic (identPos n) (PackageLevelLogger (identName n)))
   \<and> checkLoggerDecl ps p (FuncDecl recv fname params results body) = []
   \<and> checkLoggerSpec ps p (TypeSpec tname texpr) = []
   \<and> (ObjectOf p local = Some lobj \<and> Parent lobj \<noteq> Some (PkgScope lobj)
      \<longrightarrow> checkLoggerName ps p local = [])"
proof -
  have iff: "name \<in> set (topLevelValueNames p) \<and> ObjectOf p name = Some obj
        \<and> Parent obj = Some (PkgScope obj)
      \<longrightarrow> (Diagnostic (identPos name) (PackageLevelLogger (identName name))
             \<in> set (nopkglogger_run ps p)
           \<longleftrightarrow> (\<exists>pat \<in> set ps. matches (typeString (Type obj)) pat))"
  proof (intro impI, elim conjE)
    assume n: "name \<in> set (topLevelValueNames p)" and o: "ObjectOf p name = Some obj"
      and pk: "Parent obj = Some (PkgScope obj)"
    show "Diagnostic (identPos name) (PackageLevelLogger (identName name))
             \<in> set (nopkglogger_run ps p)
           \<longleftrightarrow> (\<exists>pat \<in> set ps. matches (typeString (Type obj)) pat)"
    proof
      assume "Diagnostic (identPos name) (PackageLevelLogger (identName name))
             \<in> set (nopkglogger_run ps p)"
      then obtain n' ob where n': "ObjectOf p n' = Some ob"
        and m: "\<exists>pat \<in> set ps. matches (typeString (Type ob)) pat"
        and e: "Diagnostic (identPos name) (PackageLevelLogger (identName name))
                = Diagnostic (identPos n') (PackageLevelLogger (identName n'))"
        unfolding nopkglogger_run_iff by blast
      from e have "n' = name"
        by (simp add: ident_eq)
      with n' o have "ob = obj" by simp
      with m show "\<exists>pat \<in> set ps. matches (typeString (Type obj)) pat" by simp
    next
      assume "\<exists>pat \<in> set ps. matches (typeString (Type obj)) pat"
      with n o pk show "Diagnostic (identPos name) (PackageLevelLogger (identName name))
             \<in> set (nopkglogger_run ps p)"
        unfolding nopkglogger_run_iff by blast
    qed
  qed
  have only: "\<forall>d \<in> set (nopkglogger_run ps p).
        \<exists>n \<in> set (topLevelValueNames p). \<exists>ob.
          ObjectOf p n = Some ob \<and> Parent ob = Some (PkgScope ob)
          \<and> (\<exists>pat \<in> set ps. matches (typeString (Type ob)) pat)
          \<and> d = Diagnostic (identPos n) (PackageLevelLogger (identName n))"
    using nopkglogger_run_iff [of _ ps p] by blast
  have loc: "ObjectOf p local = Some lobj \<and> Parent lobj \<noteq> Some (PkgScope lobj)
      \<longrightarrow> checkLoggerName ps p local = []"
    by (simp add: checkLoggerName_def)
  from matchTypePattern_matches iff only loc show ?thesis
    by simp
qed

lemma zerolog_matches: "matches (typeString zerologLogger) ''zerolog.Logger''"
  by (simp add: zerologLogger_def typeString_def matches_def hasMarker_def
      endsAtBoundary_def suffix_to_prefix)

theorem LoggerPlacement_witness:
  "(Ident ''log'' 10 \<in> set (topLevelValueNames nopkgloggerExample)
    \<and> ObjectOf nopkgloggerExample (Ident ''log'' 10)
        = Some \<lparr> Parent = Some 1, PkgScope = 1, Type = zerologLogger \<rparr>
    \<and> Parent \<lparr> Parent = Some 1, PkgScope = 1, Type = zerologLogger \<rparr>
        = Some (PkgScope \<lparr> Parent = Some 1, PkgScope = 1, Type = zerologLogger \<rparr>))
   \<and> Diagnostic 10 (PackageLevelLogger ''log'')
        \<in> set (nopkglogger_run (LoggerTypePatterns DefaultConfig) nopkgloggerExample)
   \<and> (ObjectOf nopkgloggerExample (Ident ''localLog'' 41)
        = Some \<lparr> Parent = Some 2, PkgScope = 1, Type = zerologLogger \<rparr>
      \<and> Parent \<lparr> Parent = Some 2, PkgScope = 1, Type = zerologLogger \<rparr>
        \<noteq> Some (PkgScope \<lparr> Parent = Some 2, PkgScope = 1, Type = zerologLogger \<rparr>))
   \<and> checkLoggerName (LoggerTypePatterns DefaultConfig) nopkgloggerExample
        (Ident ''localLog'' 41) = []"
proof -
  let ?obj = "\<lparr> Parent = Some 1, PkgScope = 1, Type = zerologLogger \<rparr>"
  let ?lobj = "\<lparr> Parent = Some 2, PkgScope = (1::nat), Type = zerologLogger \<rparr>"
  let ?ps = "LoggerTypePatterns DefaultConfig"
  have h1: "Ident ''log'' 10 \<in> set (topLevelValueNames nopkgloggerExample)
    \<and> ObjectOf nopkgloggerExample (Ident ''log'' 10) = Some ?obj
    \<and> Parent ?obj = Some (PkgScope ?obj)"
    by (simp add: topLevelValueNames_def nopkgloggerExample_def)
  have h2: "ObjectOf nopkgloggerExample (Ident ''localLog'' 41) = Some ?lobj
      \<and> Parent ?lobj \<noteq> Some (PkgScope ?lobj)"
    by (simp add: nopkgloggerExample_def)
  have m: "\<exists>pat \<in> set ?ps. matches (typeString (Type ?obj)) pat"
    using zerolog_matches by (simp add: DefaultConfig_def)
  note t = LoggerPlacement [of _ _ "Ident ''log'' 10" nopkgloggerExample ?obj ?ps
      _ _ _ _ _ _ _ "Ident ''localLog'' 41" ?lobj]
  from t h1 m have d: "Diagnostic (identPos (Ident ''log'' 10))
      (PackageLevelLogger (identName (Ident ''log'' 10)))
        \<in> set (nopkglogger_run ?ps nopkgloggerExample)"
    by blast
  from t h2 have l: "checkLoggerName ?ps nopkgloggerExample (Ident ''localLog'' 41) = []"
    by blast
  from h1 h2 d l show ?thesis
    by simp
qed

subsection \<open>Enum constants\<close>

lemmas enum_defs = enumiota_run_def collectEnumTypes_def checkConstDecl_def
  isEnumTypeName_def hasStringLiteralValue_def enumObjects_def DefaultConfig_def
  HasSuffix_def suffix_to_prefix

lemma checkConstSpec_single:
  "checkConstSpec p (collectEnumTypes sfx p) (ValueSpec [name] typ [v]) \<noteq> []
   \<longleftrightarrow> constantToFlag sfx p [name] [v] 0"
  by (auto simp: constantToFlag_def enumCandidate_def hasStringLiteralValue_def
      split: option.splits gotype.splits)

lemma enumiota_examples:
  "enumiota_run (EnumTypeSuffixes DefaultConfig) enumExample
   = [Diagnostic 20 (EnumConstantUsesString ''SANTypeDNS'')]"
  by (simp add: enumExample_def enum_defs)

text \<open>
  C2.  The rule looks at the first name of each constant spec only.  In
  \<open>type SANType string; const SANTypeDNS, SANTypeEmail SANType = "dns", "email"\<close> the
  constant \<open>SANTypeEmail\<close> has a candidate type with underlying type \<open>string\<close> and a
  string literal as its value, and the only diagnostic is the one for \<open>SANTypeDNS\<close>.
\<close>

theorem enumiota_second_name_not_flagged:
  "constantToFlag (EnumTypeSuffixes DefaultConfig) enumTwoNames
     [Ident ''SANTypeDNS'' 20, Ident ''SANTypeEmail'' 21]
     [BasicLit L_STRING ''dns'', BasicLit L_STRING ''email''] 1
   \<and> enumiota_run (EnumTypeSuffixes DefaultConfig) enumTwoNames
       = [Diagnostic 20 (EnumConstantUsesString ''SANTypeDNS'')]
   \<and> ''SANTypeEmail''
       \<notin> set (flaggedNames (enumiota_run (EnumTypeSuffixes DefaultConfig) enumTwoNames))"
proof -
  have r: "enumiota_run (EnumTypeSuffixes DefaultConfig) enumTwoNames
       = [Diagnostic 20 (EnumConstantUsesString ''SANTypeDNS'')]"
    by (simp add: enumTwoNames_def enum_defs)
  have c: "constantToFlag (EnumTypeSuffixes DefaultConfig) enumTwoNames
     [Ident ''SANTypeDNS'' 20, Ident ''SANTypeEmail'' 21]
     [BasicLit L_STRING ''dns'', BasicLit L_STRING ''email''] 1"
    by (simp add: constantToFlag_def enumCandidate_def enumTwoNames_def enum_defs)
  from r c show ?thesis by simp
qed

subsection \<open>Constructors\<close>










subsection \<open>Comments\<close>










subsection \<open>Copyright year\<close>

lemma fm_Seq: "firstMatch a st x \<Longrightarrow> firstMatch b x y \<Longrightarrow> firstMatch (Seq a b) st y"
  by (auto simp: firstMatch_def)

lemma fm_single: "reMatch r st = [e] \<Longrightarrow> firstMatch r st e"
  by (simp add: firstMatch_def)

lemma fm_Opt_some: "firstMatch a st x \<Longrightarrow> firstMatch (Opt a) st x"
  by (auto simp: firstMatch_def)

lemma fm_Opt_none: "reMatch a st = [] \<Longrightarrow> firstMatch (Opt a) st st"
  by (simp add: firstMatch_def)

lemma fm_Group:
  "firstMatch a (s, c) (r, c') \<Longrightarrow>
   firstMatch (Group a) (s, c) (r, Some (take (length s - length r) s))"
  by (auto simp: firstMatch_def)

lemma takeWhile_blank:
  assumes "blank sp" and "t = [] \<or> hd t \<notin> set spaceChars"
  shows "takeWhile (\<lambda>x. x \<in> set spaceChars) (sp @ t) = sp"
proof -
  have "takeWhile (\<lambda>x. x \<in> set spaceChars) t = []"
    using assms(2) by (cases t) auto
  moreover have "\<forall>x \<in> set sp. x \<in> set spaceChars"
    using assms(1) by (auto simp: blank_def)
  ultimately show ?thesis
    by (simp add: takeWhile_append2)
qed

lemma fm_space:
  assumes "blank sp" and "t = [] \<or> hd t \<notin> set spaceChars"
  shows "firstMatch reSpace (sp @ t, c) (t, c)"
  using takeWhile_blank [OF assms]
  by (simp add: firstMatch_def reSpace_def)

lemma digits4_cases:
  assumes "digits4 y"
  obtains a b c d where "y = [a, b, c, d]"
    and "a \<in> set ''0123456789''" and "b \<in> set ''0123456789''"
    and "c \<in> set ''0123456789''" and "d \<in> set ''0123456789''"
proof -
  from assms have "length y = 4" by (simp add: digits4_def)
  then obtain a b c d where y: "y = [a, b, c, d]"
    by (auto simp: numeral_eq_Suc length_Suc_conv)
  with assms that show ?thesis
    by (simp add: digits4_def)
qed

lemma reMatch_reYear:
  assumes "digits4 y"
  shows "reMatch reYear (y @ rest, c) = [(rest, c)]"
proof -
  from assms obtain a b c' d where "y = [a, b, c', d]"
    and "a \<in> set ''0123456789''" and "b \<in> set ''0123456789''"
    and "c' \<in> set ''0123456789''" and "d \<in> set ''0123456789''"
    by (rule digits4_cases)
  then show ?thesis
    by (simp add: reYear_def reDigit_def)
qed

lemma digit_not_space: "digits4 y \<Longrightarrow> hd (y @ rest) \<notin> set spaceChars"
  by (erule digits4_cases) (auto simp: spaceChars_def)

lemma no_dash:
  "noHyphenNext s \<Longrightarrow> k \<le> length (takeWhile (\<lambda>x. x \<in> set spaceChars) s)
   \<Longrightarrow> \<not> prefix ''-'' (drop k s)"
proof (induction s arbitrary: k)
  case Nil
  show ?case by simp
next
  case (Cons x t)
  show ?case
  proof (cases "x \<in> set spaceChars")
    case True
    then have x: "x \<noteq> CHR ''-''"
      by (auto simp: spaceChars_def)
    from True Cons.prems(1) have n: "noHyphenNext t"
      by (simp add: noHyphenNext_def)
    show ?thesis
    proof (cases k)
      case 0
      with x show ?thesis by simp
    next
      case (Suc k')
      with True Cons.prems(2) have "k' \<le> length (takeWhile (\<lambda>x. x \<in> set spaceChars) t)"
        by simp
      from Cons.IH [OF n this] Suc show ?thesis by simp
    qed
  next
    case False
    with Cons.prems show ?thesis
      by (simp add: noHyphenNext_def)
  qed
qed

lemma no_hyphen_part:
  assumes "noHyphenNext rest"
  shows "reMatch (Seq reSpace (Seq (Lit ''-'') reSpace)) (rest, c) = []"
proof -
  have "reMatch (Seq (Lit ''-'') reSpace) (drop k rest, c) = []"
    if "k \<le> length (takeWhile (\<lambda>x. x \<in> set spaceChars) rest)" for k
    using no_dash [OF assms that] by simp
  then show ?thesis
    by (simp add: reSpace_def del: reMatch.simps(3) upt_Suc)
       (auto simp del: upt_Suc)
qed

lemma fm_reRange_none:
  assumes "digits4 y" and "noHyphenNext rest"
  shows "firstMatch reRange (y @ rest, c) (y @ rest, c)"
proof -
  have "reMatch (Seq reYear (Seq reSpace (Seq (Lit ''-'') reSpace))) (y @ rest, c) = []"
    using reMatch_reYear [OF assms(1), of rest c] no_hyphen_part [OF assms(2), of c]
    by (simp del: reMatch.simps(3) add: reMatch.simps(3) [of reYear])
  then show ?thesis
    unfolding reRange_def by (rule fm_Opt_none)
qed

lemma fm_Lit: "firstMatch (Lit w) (w @ t, c) (t, c)"
  by (simp add: firstMatch_def)

lemma fm_reYear: "digits4 y \<Longrightarrow> firstMatch reYear (y @ rest, c) (rest, c)"
  by (simp add: fm_single reMatch_reYear)

lemma fm_reRange_some:
  assumes "digits4 y1" and "blank sp3" and "blank sp4" and "t = [] \<or> hd t \<notin> set spaceChars"
  shows "firstMatch reRange (y1 @ sp3 @ ''-'' @ sp4 @ t, c) (t, c)"
proof -
  have h: "''-'' @ sp4 @ t = [] \<or> hd (''-'' @ sp4 @ t) \<notin> set spaceChars"
    by (simp add: spaceChars_def)
  have 1: "firstMatch reYear (y1 @ sp3 @ ''-'' @ sp4 @ t, c) (sp3 @ ''-'' @ sp4 @ t, c)"
    by (rule fm_reYear [OF assms(1)])
  have 2: "firstMatch reSpace (sp3 @ ''-'' @ sp4 @ t, c) (''-'' @ sp4 @ t, c)"
    by (rule fm_space [OF assms(2) h])
  have 3: "firstMatch (Lit ''-'') (''-'' @ sp4 @ t, c) (sp4 @ t, c)"
    by (rule fm_Lit)
  have 4: "firstMatch reSpace (sp4 @ t, c) (t, c)"
    by (rule fm_space [OF assms(3) assms(4)])
  show ?thesis
    unfolding reRange_def
    by (intro fm_Opt_some fm_Seq [OF 1] fm_Seq [OF 2] fm_Seq [OF 3] 4)
qed

lemma fm_reSign:
  assumes "sign sg" and "t \<noteq> []" and "hd t \<in> set (spaceChars @ ''0123456789'')"
  shows "firstMatch reSign (sg @ t, c) (t, c)"
proof -
  from assms(2) obtain x xs where t: "t = x # xs"
    by (cases t) auto
  with assms(3) have x: "x \<noteq> CHR 0xC2" "x \<noteq> CHR ''(''"
    by (auto simp: spaceChars_def)
  from assms(1) consider "sg = []" | "sg = copyrightSign" | "sg = ''(c)''"
    by (auto simp: sign_def)
  then show ?thesis
  proof cases
    case 1
    with x show ?thesis
      by (simp add: reSign_def firstMatch_def t copyrightSign_def)
  next
    case 2
    then show ?thesis
      by (simp add: reSign_def firstMatch_def)
  next
    case 3
    then show ?thesis
      by (simp add: reSign_def firstMatch_def copyrightSign_def)
  qed
qed

lemma fm_header:
  assumes m: "marker m" and sp1: "blank sp1" and sg: "sign sg" and sp2: "blank sp2"
    and y: "digits4 y" and k: "firstMatch k (y @ t, c) e"
  shows "firstMatch
     (Seq (Chars ''Cc'') (Seq (Lit ''opyright'') (Seq reSpace (Seq reSign (Seq reSpace k)))))
     (m @ sp1 @ sg @ sp2 @ y @ t, c) e"
proof -
  let ?u = "sp1 @ sg @ sp2 @ y @ t"
  have d: "y @ t = [] \<or> hd (y @ t) \<notin> set spaceChars"
    using digit_not_space [OF y] by simp
  have a: "firstMatch (Chars ''Cc'') (m @ ?u, c) (''opyright'' @ ?u, c)"
    using m by (auto simp: marker_def firstMatch_def)
  have b: "firstMatch (Lit ''opyright'') (''opyright'' @ ?u, c) (?u, c)"
    by (rule fm_Lit)
  have ne: "sp2 @ y @ t \<noteq> []"
    using y by (auto simp: digits4_def)
  have hd2: "hd (sp2 @ y @ t) \<in> set (spaceChars @ ''0123456789'')"
  proof (cases sp2)
    case Nil
    then show ?thesis
      using y by (auto elim!: digits4_cases)
  next
    case (Cons x xs)
    then show ?thesis
      using sp2 by (auto simp: blank_def)
  qed
  have rest: "firstMatch (Seq reSpace (Seq reSign (Seq reSpace k))) (?u, c) e"
  proof (cases "sg = []")
    case True
    have "blank (sp1 @ sp2)"
      using sp1 sp2 by (simp add: blank_def)
    from fm_space [OF this d, of c]
    have 1: "firstMatch reSpace (?u, c) (y @ t, c)"
      by (simp add: True)
    have "y @ t \<noteq> []"
      using y by (auto simp: digits4_def)
    moreover have "hd (y @ t) \<in> set (spaceChars @ ''0123456789'')"
      using y by (auto elim!: digits4_cases)
    ultimately have 2: "firstMatch reSign (y @ t, c) (y @ t, c)"
      using fm_reSign [of "[]" "y @ t" c] by (simp add: sign_def)
    have 3: "firstMatch reSpace (y @ t, c) (y @ t, c)"
      using fm_space [of "[]" "y @ t" c] d by (simp add: blank_def)
    show ?thesis
      by (intro fm_Seq [OF 1] fm_Seq [OF 2] fm_Seq [OF 3] k)
  next
    case False
    with sg have "hd (sg @ sp2 @ y @ t) \<notin> set spaceChars"
      by (auto simp: sign_def copyrightSign_def spaceChars_def)
    then have 1: "firstMatch reSpace (?u, c) (sg @ sp2 @ y @ t, c)"
      by (intro fm_space sp1) simp
    have 2: "firstMatch reSign (sg @ sp2 @ y @ t, c) (sp2 @ y @ t, c)"
      by (rule fm_reSign [OF sg ne hd2])
    have 3: "firstMatch reSpace (sp2 @ y @ t, c) (y @ t, c)"
      by (rule fm_space [OF sp2 d])
    show ?thesis
      by (intro fm_Seq [OF 1] fm_Seq [OF 2] fm_Seq [OF 3] k)
  qed
  show ?thesis
    by (intro fm_Seq [OF a] fm_Seq [OF b] rest)
qed

lemma FindStringSubmatch_first:
  "firstMatch r (s, None) e \<Longrightarrow> FindStringSubmatch r s = snd e"
  by (cases s) (auto simp: firstMatch_def)

lemma header_single:
  assumes "marker m" and "blank sp1" and "sign sg" and "blank sp2" and "digits4 y"
    and "noHyphenNext rest"
  shows "FindStringSubmatch copyrightYearPattern (m @ sp1 @ sg @ sp2 @ y @ rest) = Some y"
proof -
  have 1: "firstMatch reRange (y @ rest, None) (y @ rest, None)"
    by (rule fm_reRange_none [OF assms(5,6)])
  have 2: "firstMatch (Group reYear) (y @ rest, None)
             (rest, Some (take (length (y @ rest) - length rest) (y @ rest)))"
    by (rule fm_Group [OF fm_reYear [OF assms(5)]])
  have "firstMatch copyrightYearPattern (m @ sp1 @ sg @ sp2 @ y @ rest, None)
          (rest, Some (take (length (y @ rest) - length rest) (y @ rest)))"
    unfolding copyrightYearPattern_def
    by (intro fm_header assms fm_Seq [OF 1] 2)
  from FindStringSubmatch_first [OF this] show ?thesis
    by simp
qed

lemma header_range:
  assumes "marker m" and "blank sp1" and "sign sg" and "blank sp2" and "digits4 y1"
    and "blank sp3" and "blank sp4" and "digits4 y2"
  shows "FindStringSubmatch copyrightYearPattern
           (m @ sp1 @ sg @ sp2 @ y1 @ sp3 @ ''-'' @ sp4 @ y2 @ rest) = Some y2"
proof -
  have d: "y2 @ rest = [] \<or> hd (y2 @ rest) \<notin> set spaceChars"
    using digit_not_space [OF assms(8)] by simp
  have 1: "firstMatch reRange (y1 @ sp3 @ ''-'' @ sp4 @ y2 @ rest, None) (y2 @ rest, None)"
    by (rule fm_reRange_some [OF assms(5,6,7) d])
  have 2: "firstMatch (Group reYear) (y2 @ rest, None)
             (rest, Some (take (length (y2 @ rest) - length rest) (y2 @ rest)))"
    by (rule fm_Group [OF fm_reYear [OF assms(8)]])
  have "firstMatch copyrightYearPattern
          (m @ sp1 @ sg @ sp2 @ y1 @ (sp3 @ ''-'' @ sp4 @ y2 @ rest), None)
          (rest, Some (take (length (y2 @ rest) - length rest) (y2 @ rest)))"
    unfolding copyrightYearPattern_def
    by (intro fm_header assms fm_Seq [OF 1] 2)
  from FindStringSubmatch_first [OF this] show ?thesis
    by simp
qed

lemma groupPos_headerPos: "List cg \<noteq> [] \<Longrightarrow> groupPos cg = Some (headerPos cg)"
  by (cases "List cg") (simp_all add: groupPos_def headerPos_def)

lemma findHeader_find:
  "\<forall>cg \<in> set cgs. List cg \<noteq> [] \<Longrightarrow>
   findHeader pk cgs = Some (find (\<lambda>cg. headerPos cg < pk) cgs)"
  by (induction cgs) (simp_all add: groupPos_headerPos)

lemma checkFile_header:
  assumes "\<forall>cg \<in> set (Comments f). List cg \<noteq> []"
  shows "checkFile f cur =
     Some (case headerGroup f of
             None \<Rightarrow> []
           | Some cg \<Rightarrow>
               (case copyrightYear (Text cg) of
                  None \<Rightarrow> []
                | Some y \<Rightarrow>
                    if y < cur then [Diagnostic (headerPos cg) (CopyrightYearOutdated y cur)]
                    else []))"
proof (cases "headerGroup f")
  case None
  then show ?thesis
    using findHeader_find [OF assms, of "Package f"]
    by (simp add: checkFile_def headerGroup_def)
next
  case (Some cg)
  then have "cg \<in> set (Comments f)"
    by (auto simp: headerGroup_def find_Some_iff)
  with assms have "groupPos cg = Some (headerPos cg)"
    by (simp add: groupPos_headerPos)
  with Some show ?thesis
    using findHeader_find [OF assms, of "Package f"]
    by (auto simp: checkFile_def headerGroup_def copyrightYear_def split: option.splits)
qed

text \<open>
  C8.  As stated (the marker is found whatever the case of its letters) the claim fails:
  the pattern accepts \<open>Copyright\<close> and \<open>copyright\<close> only.  A header
  \<open>COPYRIGHT 2020 Attestant Limited.\<close> carries the year 2020 after the marker in upper
  case and is not flagged in 2026.
\<close>

theorem checkFile_upper_case_counterexample:
  "FindStringSubmatch anyCasePattern ''COPYRIGHT 2020 Attestant Limited.'' = Some ''2020''
   \<and> Atoi ''2020'' = Some 2020
   \<and> (2020 :: int) < 2026
   \<and> checkFile
        \<lparr> Package = 20, Decls = [],
          Comments = [\<lparr> List = [Comment 1 ''// COPYRIGHT 2020 Attestant Limited.''],
                        Text = ''COPYRIGHT 2020 Attestant Limited.'' \<rparr>] \<rparr>
        2026
       = Some []"
  by code_simp

text \<open>
  C8, amended.  For every source file (whose comment groups are not empty, as the parser
  builds them), the rule takes the first comment group before the package clause, finds
  in its text the first place where \<open>Copyright\<close> or \<open>copyright\<close> is followed by optional
  white space, an optional copyright sign or \<open>(c)\<close>, optional white space and a year of
  four digits (for a hyphenated range, the second year), and reports once iff that year
  is strictly less than the current year; with no such comment group or no such year
  there is no diagnostic, and the check never fails.  A header that starts with the
  marker, a sign and a year yields that year, and one with a range its second year.
\<close>

theorem CopyrightFreshness:
  "((\<forall>cg \<in> set (Comments f). List cg \<noteq> []) \<longrightarrow>
      checkFile f cur =
        Some (case headerGroup f of
                None \<Rightarrow> []
              | Some cg \<Rightarrow>
                  (case copyrightYear (Text cg) of
                     None \<Rightarrow> []
                   | Some y \<Rightarrow>
                       if y < cur
                       then [Diagnostic (headerPos cg) (CopyrightYearOutdated y cur)]
                       else []))
      \<and> (\<exists>ds. checkFile f cur = Some ds \<and> length ds \<le> 1))
   \<and> (marker m \<and> blank sp1 \<and> sign sg \<and> blank sp2 \<and> digits4 y1 \<and> noHyphenNext rest \<longrightarrow>
        copyrightYear (m @ sp1 @ sg @ sp2 @ y1 @ rest) = Atoi y1)
   \<and> (marker m \<and> blank sp1 \<and> sign sg \<and> blank sp2 \<and> digits4 y1
        \<and> blank sp3 \<and> blank sp4 \<and> digits4 y2 \<longrightarrow>
        copyrightYear (m @ sp1 @ sg @ sp2 @ y1 @ sp3 @ ''-'' @ sp4 @ y2 @ rest) = Atoi y2)"
proof -
  have a: "checkFile f cur =
        Some (case headerGroup f of
                None \<Rightarrow> []
              | Some cg \<Rightarrow>
                  (case copyrightYear (Text cg) of
                     None \<Rightarrow> []
                   | Some y \<Rightarrow>
                       if y < cur
                       then [Diagnostic (headerPos cg) (CopyrightYearOutdated y cur)]
                       else []))
      \<and> (\<exists>ds. checkFile f cur = Some ds \<and> length ds \<le> 1)"
    if "\<forall>cg \<in> set (Comments f). List cg \<noteq> []"
    unfolding checkFile_header [OF that]
    by (simp split: option.splits)
  have b: "copyrightYear (m @ sp1 @ sg @ sp2 @ y1 @ rest) = Atoi y1"
    if "marker m \<and> blank sp1 \<and> sign sg \<and> blank sp2 \<and> digits4 y1 \<and> noHyphenNext rest"
    using that by (simp add: copyrightYear_def header_single)
  have c: "copyrightYear (m @ sp1 @ sg @ sp2 @ y1 @ sp3 @ ''-'' @ sp4 @ y2 @ rest) = Atoi y2"
    if "marker m \<and> blank sp1 \<and> sign sg \<and> blank sp2 \<and> digits4 y1
        \<and> blank sp3 \<and> blank sp4 \<and> digits4 y2"
    using that header_range [of m sp1 sg sp2 y1 sp3 sp4 y2 rest]
    by (simp add: copyrightYear_def)
  from a b c show ?thesis
    by blast
qed

theorem CopyrightFreshness_witness:
  "list_all (\<lambda>cg. List cg \<noteq> []) (Comments header2024)
   \<and> (marker ''Copyright'' \<and> blank '' '' \<and> sign copyrightSign \<and> blank '' ''
        \<and> digits4 ''2024'' \<and> noHyphenNext '' Attestant Limited.'')
   \<and> copyrightYear (''Copyright '' @ copyrightSign @ '' 2024 Attestant Limited.'') = Some 2024
   \<and> checkFile header2024 2026 = Some [Diagnostic 1 (CopyrightYearOutdated 2024 2026)]
   \<and> checkFile header2024 2024 = Some []
   \<and> list_all (\<lambda>cg. List cg \<noteq> []) (Comments headerRange)
   \<and> (marker ''copyright'' \<and> blank '' '' \<and> sign ''(c)'' \<and> blank '' ''
        \<and> digits4 ''2023'' \<and> blank '' '' \<and> blank '' '' \<and> digits4 ''2026'')
   \<and> copyrightYear ''copyright (c) 2023 - 2026 Attestant Limited.'' = Some 2026
   \<and> checkFile headerRange 2026 = Some []"
proof -
  have w1: "\<forall>cg \<in> set (Comments header2024). List cg \<noteq> []"
    by (simp add: header2024_def)
  have w2: "\<forall>cg \<in> set (Comments headerRange). List cg \<noteq> []"
    by (simp add: headerRange_def)
  have h1: "marker ''Copyright'' \<and> blank '' '' \<and> sign copyrightSign \<and> blank '' ''
        \<and> digits4 ''2024'' \<and> noHyphenNext '' Attestant Limited.''"
    by (simp add: marker_def blank_def sign_def digits4_def noHyphenNext_def spaceChars_def)
  have h2: "marker ''copyright'' \<and> blank '' '' \<and> sign ''(c)'' \<and> blank '' ''
        \<and> digits4 ''2023'' \<and> blank '' '' \<and> blank '' '' \<and> digits4 ''2026''"
    by (simp add: marker_def blank_def sign_def digits4_def spaceChars_def)
  have a1: "Atoi ''2024'' = Some 2024" and a2: "Atoi ''2026'' = Some 2026"
    by (simp_all add: Atoi_def digitValue_def)
  note t1 = CopyrightFreshness [of header2024 2026 "''Copyright''" "'' ''" copyrightSign
      "'' ''" "''2024''" "'' Attestant Limited.''"]
  note t1' = CopyrightFreshness [of header2024 2024 "''Copyright''" "'' ''" copyrightSign
      "'' ''" "''2024''" "'' Attestant Limited.''"]
  note t2 = CopyrightFreshness [of headerRange 2026 "''copyright''" "'' ''" "''(c)''"
      "'' ''" "''2023''" "'' Attestant Limited.''" "'' ''" "'' ''" "''2026''"]
  from t1 h1 a1
  have y1: "copyrightYear (''Copyright '' @ copyrightSign @ '' 2024 Attestant Limited.'')
            = Some 2024"
    by simp
  from t2 h2 a2
  have y2: "copyrightYear ''copyright (c) 2023 - 2026 Attestant Limited.'' = Some 2026"
    by simp
  have g1: "headerGroup header2024
            = Some \<lparr> List = [Comment 1 (''// Copyright '' @ copyrightSign
                                         @ '' 2024 Attestant Limited.'')],
                     Text = ''Copyright '' @ copyrightSign @ '' 2024 Attestant Limited.'' \<rparr>"
    by (simp add: headerGroup_def header2024_def headerPos_def)
  have g2: "headerGroup headerRange
            = Some \<lparr> List = [Comment 1 ''// copyright (c) 2023 - 2026 Attestant Limited.''],
                     Text = ''copyright (c) 2023 - 2026 Attestant Limited.'' \<rparr>"
    by (simp add: headerGroup_def headerRange_def headerPos_def)
  from t1 w1 have "checkFile header2024 2026 =
        Some (case headerGroup header2024 of
                None \<Rightarrow> []
              | Some cg \<Rightarrow>
                  (case copyrightYear (Text cg) of
                     None \<Rightarrow> []
                   | Some y \<Rightarrow>
                       if y < 2026
                       then [Diagnostic (headerPos cg) (CopyrightYearOutdated y 2026)]
                       else []))"
    by blast
  then have c1: "checkFile header2024 2026
                 = Some [Diagnostic 1 (CopyrightYearOutdated 2024 2026)]"
    using y1 by (simp add: g1 headerPos_def)
  from t1' w1 have "checkFile header2024 2024 =
        Some (case headerGroup header2024 of
                None \<Rightarrow> []
              | Some cg \<Rightarrow>
                  (case copyrightYear (Text cg) of
                     None \<Rightarrow> []
                   | Some y \<Rightarrow>
                       if y < 2024
                       then [Diagnostic (headerPos cg) (CopyrightYearOutdated y 2024)]
                       else []))"
    by blast
  then have c1': "checkFile header2024 2024 = Some []"
    using y1 by (simp add: g1)
  from t2 w2 have "checkFile headerRange 2026 =
        Some (case headerGroup headerRange of
                None \<Rightarrow> []
              | Some cg \<Rightarrow>
                  (case copyrightYear (Text cg) of
                     None \<Rightarrow> []
                   | Some y \<Rightarrow>
                       if y < 2026
                       then [Diagnostic (headerPos cg) (CopyrightYearOutdated y 2026)]
                       else []))"
    by blast
  then have c2: "checkFile headerRange 2026 = Some []"
    using y2 by (simp add: g2)
  from w1 w2 have l1: "list_all (\<lambda>cg. List cg \<noteq> []) (Comments header2024)"
    and l2: "list_all (\<lambda>cg. List cg \<noteq> []) (Comments headerRange)"
    by (simp_all add: list_all_iff)
  from l1 h1 y1 c1 c1' l2 h2 y2 c2 show ?thesis
    by blast
qed

subsection \<open>Interface compliance checks\<close>

lemma key_inject:
  assumes "CHR '':'' \<notin> set i" and "CHR '':'' \<notin> set i'"
    and "checkKey i s = checkKey i' s'"
  shows "i = i' \<and> s = s'"
proof -
  have t: "takeWhile (\<lambda>c. c \<noteq> CHR '':'') (j @ '':'' @ r) = j" if "CHR '':'' \<notin> set j" for j r
    using that by (induction j) auto
  from t [OF assms(1), of s] t [OF assms(2), of s'] assms(3) have "i = i'"
    by (simp add: checkKey_def)
  with assms(3) show ?thesis
    by (simp add: checkKey_def)
qed

lemma getInterfaceName_namedBy:
  "getInterfaceName (Some t) = (case namedBy t of Some i \<Rightarrow> i | None \<Rightarrow> [])"
  by (cases t) simp_all

lemma starTypeName_namedBy:
  "starTypeName (ParenExpr (StarExpr x)) = (case namedBy x of Some n \<Rightarrow> n | None \<Rightarrow> [])"
  by (cases x) simp_all

lemma isNilIdent_iff: "isNilIdent e \<longleftrightarrow> e = IdentExpr ''nil''"
  by (cases e) auto

lemma starTypeName_nonempty:
  "starTypeName f \<noteq> [] \<Longrightarrow> \<exists>x. f = ParenExpr (StarExpr x)"
  by (induction f rule: starTypeName.induct) simp_all

lemma getStructNameFromNilCast_target:
  "getStructNameFromNilCast vals = (case nilCastTarget vals of Some n \<Rightarrow> n | None \<Rightarrow> [])"
proof (cases "getStructNameFromNilCast vals = []")
  case True
  have "nilCastTarget vals = Some n \<Longrightarrow> getStructNameFromNilCast vals = n" for n
    by (induction vals rule: nilCastTarget.induct)
       (simp_all add: starTypeName_namedBy split: if_splits)
  with True show ?thesis
    by (cases "nilCastTarget vals") auto
next
  case False
  then obtain f args where v: "vals = [CallExpr f args]"
    by (induction vals rule: getStructNameFromNilCast.induct) simp_all
  with False have l: "length args = 1" and n: "isNilIdent (args ! 0)"
    and st: "starTypeName f \<noteq> []"
    by (auto split: if_splits)
  from l obtain e where a: "args = [e]"
    by (cases args) auto
  with n have e: "e = IdentExpr ''nil''"
    by (simp add: isNilIdent_iff)
  from st obtain x where f: "f = ParenExpr (StarExpr x)"
    using starTypeName_nonempty by blast
  show ?thesis
    by (simp add: v a e f starTypeName_namedBy)
qed

lemma discardName_iff:
  "discardName names \<longleftrightarrow> length names = 1 \<and> identName (names ! 0) = ''_''"
  by (induction names rule: discardName.induct) simp_all

lemma existingCheckOfSpec_assertedPair:
  "existingCheckOfSpec sp
   = (case assertedPair sp of
        Some (i, s) \<Rightarrow> if i \<noteq> [] \<and> s \<noteq> [] then [checkKey i s] else []
      | None \<Rightarrow> [])"
proof (cases sp)
  case (ValueSpec names t vals)
  show ?thesis
  proof (cases t)
    case None
    then show ?thesis
      by (simp add: ValueSpec)
  next
    case (Some te)
    then show ?thesis
      using discardName_iff [of names]
      by (auto simp: ValueSpec Let_def getInterfaceName_namedBy
          getStructNameFromNilCast_target split: option.splits)
  qed
qed simp_all

lemma existingCheckOfSpec_iff:
  "k \<in> set (existingCheckOfSpec sp)
   \<longleftrightarrow> (\<exists>i s. k = checkKey i s \<and> assertedPair sp = Some (i, s) \<and> i \<noteq> [] \<and> s \<noteq> [])"
  unfolding existingCheckOfSpec_assertedPair
  by (cases "assertedPair sp") (auto split: if_splits)

lemma in_map_filter:
  "y \<in> set (List.map_filter g xs) \<longleftrightarrow> (\<exists>x \<in> set xs. g x = Some y)"
  by (induction xs) (auto split: option.splits)

lemma existingChecksOfDecl_iff:
  "k \<in> set (existingChecksOfDecl d)
   \<longleftrightarrow> (\<exists>i s. k = checkKey i s \<and> (i, s) \<in> set (List.map_filter assertedPair (varSpecs d))
          \<and> i \<noteq> [] \<and> s \<noteq> [])"
proof (cases d)
  case (GenDecl tok specs)
  show ?thesis
  proof (cases "tok = T_VAR")
    case True
    have "k \<in> set (existingChecksOfDecl d)
          \<longleftrightarrow> (\<exists>sp \<in> set specs. k \<in> set (existingCheckOfSpec sp))"
      using True by (simp add: GenDecl)
    also have "\<dots> \<longleftrightarrow> (\<exists>sp \<in> set specs. \<exists>i s. k = checkKey i s
                  \<and> assertedPair sp = Some (i, s) \<and> i \<noteq> [] \<and> s \<noteq> [])"
      by (simp only: existingCheckOfSpec_iff)
    also have "\<dots> \<longleftrightarrow> (\<exists>i s. k = checkKey i s
          \<and> (i, s) \<in> set (List.map_filter assertedPair (varSpecs d)) \<and> i \<noteq> [] \<and> s \<noteq> [])"
      using True unfolding GenDecl in_map_filter by simp blast
    finally show ?thesis .
  next
    case False
    then show ?thesis
      by (simp add: GenDecl List.map_filter_simps)
  qed
qed (simp_all add: List.map_filter_simps)

lemma collectExistingChecks_iff:
  "k \<in> set (collectExistingChecks p)
   \<longleftrightarrow> (\<exists>i s. k = checkKey i s \<and> (i, s) \<in> set (assertions p) \<and> i \<noteq> [] \<and> s \<noteq> [])"
proof -
  have "k \<in> set (collectExistingChecks p)
        \<longleftrightarrow> (\<exists>f \<in> set (Files p). \<exists>d \<in> set (Decls f). k \<in> set (existingChecksOfDecl d))"
    by (simp add: collectExistingChecks_def)
  also have "\<dots> \<longleftrightarrow> (\<exists>f \<in> set (Files p). \<exists>d \<in> set (Decls f).
        \<exists>i s. k = checkKey i s \<and> (i, s) \<in> set (List.map_filter assertedPair (varSpecs d))
          \<and> i \<noteq> [] \<and> s \<noteq> [])"
    by (simp only: existingChecksOfDecl_iff)
  also have "\<dots> \<longleftrightarrow> (\<exists>i s. k = checkKey i s \<and> (i, s) \<in> set (assertions p)
        \<and> i \<noteq> [] \<and> s \<noteq> [])"
    unfolding assertions_def by simp blast
  finally show ?thesis .
qed

lemma existing_key_iff:
  assumes "goIdentifier i" and "s \<noteq> []"
    and "\<forall>pr \<in> set (assertions p). goIdentifier (fst pr)"
  shows "checkKey i s \<in> set (collectExistingChecks p) \<longleftrightarrow> (i, s) \<in> set (assertions p)"
proof
  assume "checkKey i s \<in> set (collectExistingChecks p)"
  then obtain i' s' where k: "checkKey i s = checkKey i' s'"
    and m: "(i', s') \<in> set (assertions p)"
    unfolding collectExistingChecks_iff by blast
  from m assms(3) have "CHR '':'' \<notin> set i'"
    by (auto simp: goIdentifier_def)
  with assms(1) k have "i = i' \<and> s = s'"
    by (intro key_inject) (simp_all add: goIdentifier_def)
  with m show "(i, s) \<in> set (assertions p)"
    by simp
next
  assume "(i, s) \<in> set (assertions p)"
  with assms(1,2) show "checkKey i s \<in> set (collectExistingChecks p)"
    unfolding collectExistingChecks_iff by (auto simp: goIdentifier_def)
qed

lemma filter_concat_tag:
  assumes "distinct xs"
    and "\<And>x d. x \<in> set xs \<Longrightarrow> d \<in> set (f x) \<Longrightarrow> (P d \<longleftrightarrow> x = a)"
  shows "filter P (concat (map f xs)) = (if a \<in> set xs then f a else [])"
  using assms
proof (induction xs)
  case Nil
  show ?case by simp
next
  case (Cons x xs)
  have tail: "filter P (concat (map f xs)) = (if a \<in> set xs then f a else [])"
    using Cons.prems by (intro Cons.IH) auto
  show ?case
  proof (cases "x = a")
    case True
    then have "filter P (f x) = f a"
      using Cons.prems(2) [of x] by (auto intro: filter_True)
    moreover from True Cons.prems(1) have "a \<notin> set xs"
      by simp
    ultimately show ?thesis
      using True by (simp add: tail)
  next
    case False
    then have "filter P (f x) = []"
      using Cons.prems(2) [of x] by (auto simp: filter_empty_conv)
    with False show ?thesis
      by (simp add: tail)
  qed
qed

lemma checkPair_elem:
  "d \<in> set (checkPair p sc ex s i)
   \<Longrightarrow> d = Diagnostic (findStructPos p s) (StructImplementsInterface s i)"
  by (auto simp: checkPair_def Let_def split: option.splits scopeObject.splits if_splits)

lemma forPair_conv: "forPair s i d \<longleftrightarrow> forStruct s d \<and> forInterface i d"
proof (cases d)
  case (Diagnostic q m)
  then show ?thesis by (cases m) auto
qed

lemma run_for_interface:
  "filter (forInterface b) (concat (map (checkPair p sc ex s) (interfaceNames sc)))
   = (if b \<in> set (interfaceNames sc) then checkPair p sc ex s b else [])"
proof (rule filter_concat_tag)
  show "distinct (interfaceNames sc)"
    by (simp add: interfaceNames_def)
next
  fix x d
  assume "d \<in> set (checkPair p sc ex s x)"
  from checkPair_elem [OF this] show "forInterface b d \<longleftrightarrow> x = b"
    by auto
qed

lemma run_for_struct:
  "filter (forStruct a) (interfacecheck_run p sc)
   = (if a \<in> set (structNames sc)
      then concat (map (checkPair p sc (collectExistingChecks p) a) (interfaceNames sc))
      else [])"
  unfolding interfacecheck_run_def Let_def
proof (rule filter_concat_tag)
  show "distinct (structNames sc)"
    by (simp add: structNames_def)
next
  fix x d
  assume "d \<in> set (concat (map (checkPair p sc (collectExistingChecks p) x)
                              (interfaceNames sc)))"
  then obtain i where "d \<in> set (checkPair p sc (collectExistingChecks p) x i)"
    by auto
  from checkPair_elem [OF this] show "forStruct a d \<longleftrightarrow> x = a"
    by auto
qed

lemma run_for_pair:
  "filter (forPair a b) (interfacecheck_run p sc)
   = (if a \<in> set (structNames sc) \<and> b \<in> set (interfaceNames sc)
      then checkPair p sc (collectExistingChecks p) a b else [])"
proof -
  have "forPair a b = (\<lambda>d. forStruct a d \<and> forInterface b d)"
    by (auto simp: forPair_conv fun_eq_iff)
  then have "filter (forPair a b) (interfacecheck_run p sc)
        = filter (forInterface b) (filter (forStruct a) (interfacecheck_run p sc))"
    by simp
  then show ?thesis
    by (simp add: run_for_struct run_for_interface)
qed

lemma run_interface_only:
  "d \<in> set (interfacecheck_run p sc) \<Longrightarrow> forInterface b d
   \<Longrightarrow> b \<in> set (interfaceNames sc)"
proof -
  assume "d \<in> set (interfacecheck_run p sc)" and f: "forInterface b d"
  then obtain s i where i: "i \<in> set (interfaceNames sc)"
    and "d \<in> set (checkPair p sc (collectExistingChecks p) s i)"
    by (auto simp: interfacecheck_run_def Let_def)
  from checkPair_elem [OF this(2)] f have "i = b"
    by auto
  with i show ?thesis by simp
qed

lemma checkPair_struct:
  assumes "isStruct sc s"
  shows "checkPair p sc ex s i
   = (if satisfies sc s i \<and> checkKey i s \<notin> set ex \<and> findStructPos p s \<noteq> NoPos
      then [Diagnostic (findStructPos p s) (StructImplementsInterface s i)] else [])"
  using assms
  by (auto simp: checkPair_def satisfies_def isStruct_def Let_def
      split: option.splits scopeObject.splits underlying.splits)

text \<open>
  C5.  For every struct and every interface with at least one method of the package
  scope, where the struct is declared in the files of the pass and names are Go
  identifiers: among the diagnostics there is exactly one for the pair if the method set
  of the struct or of the pointer to it satisfies the interface and no compliance
  assertion for that pair of names exists, and none otherwise.  No diagnostic names an
  interface that has no method.
\<close>

theorem InterfaceConformance:
  "(structName \<in> set (Names sc) \<and> isStruct sc structName
      \<and> ifaceName \<in> set (Names sc) \<and> isQualifyingInterface sc ifaceName
      \<and> findStructPos p structName \<noteq> NoPos
      \<and> goIdentifier ifaceName \<and> goIdentifier structName
      \<and> (\<forall>pr \<in> set (assertions p). goIdentifier (fst pr))
    \<longrightarrow> filter (forPair structName ifaceName) (interfacecheck_run p sc)
        = (if satisfies sc structName ifaceName
              \<and> (ifaceName, structName) \<notin> set (assertions p)
           then [Diagnostic (findStructPos p structName)
                   (StructImplementsInterface structName ifaceName)]
           else []))
   \<and> (\<not> isQualifyingInterface sc other
      \<longrightarrow> filter (forInterface other) (interfacecheck_run p sc) = [])
   \<and> (Lookup sc other = Some (TypeName (UInterface []) valueSet pointerSet)
      \<longrightarrow> \<not> isQualifyingInterface sc other)"
proof -
  have a: "filter (forPair structName ifaceName) (interfacecheck_run p sc)
        = (if satisfies sc structName ifaceName
              \<and> (ifaceName, structName) \<notin> set (assertions p)
           then [Diagnostic (findStructPos p structName)
                   (StructImplementsInterface structName ifaceName)]
           else [])"
    if h: "structName \<in> set (Names sc) \<and> isStruct sc structName
      \<and> ifaceName \<in> set (Names sc) \<and> isQualifyingInterface sc ifaceName
      \<and> findStructPos p structName \<noteq> NoPos
      \<and> goIdentifier ifaceName \<and> goIdentifier structName
      \<and> (\<forall>pr \<in> set (assertions p). goIdentifier (fst pr))"
  proof -
    from h have s: "structName \<in> set (structNames sc)"
      and i: "ifaceName \<in> set (interfaceNames sc)"
      by (simp_all add: structNames_def interfaceNames_def)
    from h have k: "checkKey ifaceName structName \<in> set (collectExistingChecks p)
                    \<longleftrightarrow> (ifaceName, structName) \<in> set (assertions p)"
      by (intro existing_key_iff) (simp_all add: goIdentifier_def)
    from h have st: "isStruct sc structName" and q: "findStructPos p structName \<noteq> NoPos"
      by simp_all
    show ?thesis
      unfolding run_for_pair checkPair_struct [OF st]
      using s i k q by simp
  qed
  have b: "filter (forInterface other) (interfacecheck_run p sc) = []"
    if "\<not> isQualifyingInterface sc other"
  proof -
    from that have "other \<notin> set (interfaceNames sc)"
      by (simp add: interfaceNames_def)
    then show ?thesis
      using run_interface_only [of _ p sc other]
      by (auto simp: filter_empty_conv)
  qed
  have c: "\<not> isQualifyingInterface sc other"
    if "Lookup sc other = Some (TypeName (UInterface []) valueSet pointerSet)"
    using that by (simp add: isQualifyingInterface_def)
  from a b c show ?thesis
    by blast
qed

theorem InterfaceConformance_witness:
  "(''BadWriter'' \<in> set (Names interfacecheckScope) \<and> isStruct interfacecheckScope ''BadWriter''
      \<and> ''Writer'' \<in> set (Names interfacecheckScope)
      \<and> isQualifyingInterface interfacecheckScope ''Writer''
      \<and> findStructPos interfacecheckExample ''BadWriter'' \<noteq> NoPos
      \<and> goIdentifier ''Writer'' \<and> goIdentifier ''BadWriter''
      \<and> list_all (\<lambda>pr. goIdentifier (fst pr)) (assertions interfacecheckExample))
   \<and> filter (forPair ''BadWriter'' ''Writer'')
        (interfacecheck_run interfacecheckExample interfacecheckScope)
       = [Diagnostic 70 (StructImplementsInterface ''BadWriter'' ''Writer'')]
   \<and> (''GoodReader'' \<in> set (Names interfacecheckScope)
      \<and> isStruct interfacecheckScope ''GoodReader''
      \<and> ''Reader'' \<in> set (Names interfacecheckScope)
      \<and> isQualifyingInterface interfacecheckScope ''Reader''
      \<and> findStructPos interfacecheckExample ''GoodReader'' \<noteq> NoPos
      \<and> goIdentifier ''Reader'' \<and> goIdentifier ''GoodReader'')
   \<and> satisfies interfacecheckScope ''GoodReader'' ''Reader''
   \<and> (''Reader'', ''GoodReader'') \<in> set (assertions interfacecheckExample)
   \<and> filter (forPair ''GoodReader'' ''Reader'')
        (interfacecheck_run interfacecheckExample interfacecheckScope) = []
   \<and> Lookup interfacecheckScope ''EmptyInterface'' = Some (TypeName (UInterface []) [] [])
   \<and> \<not> isQualifyingInterface interfacecheckScope ''EmptyInterface''
   \<and> filter (forInterface ''EmptyInterface'')
        (interfacecheck_run interfacecheckExample interfacecheckScope) = []"
proof -
  let ?p = interfacecheckExample and ?sc = interfacecheckScope
  have as: "assertions ?p = [(''Reader'', ''GoodReader'')]"
    by code_simp
  have ids: "\<forall>pr \<in> set (assertions ?p). goIdentifier (fst pr)"
    unfolding as by (simp add: goIdentifier_def)
  have h1: "''BadWriter'' \<in> set (Names ?sc) \<and> isStruct ?sc ''BadWriter''
      \<and> ''Writer'' \<in> set (Names ?sc) \<and> isQualifyingInterface ?sc ''Writer''
      \<and> findStructPos ?p ''BadWriter'' \<noteq> NoPos
      \<and> goIdentifier ''Writer'' \<and> goIdentifier ''BadWriter''"
    by code_simp
  have q1: "findStructPos ?p ''BadWriter'' = 70"
    by code_simp
  have s1: "satisfies ?sc ''BadWriter'' ''Writer''"
    by code_simp
  have n1: "(''Writer'', ''BadWriter'') \<notin> set (assertions ?p)"
    unfolding as by simp
  have h2: "''GoodReader'' \<in> set (Names ?sc) \<and> isStruct ?sc ''GoodReader''
      \<and> ''Reader'' \<in> set (Names ?sc) \<and> isQualifyingInterface ?sc ''Reader''
      \<and> findStructPos ?p ''GoodReader'' \<noteq> NoPos
      \<and> goIdentifier ''Reader'' \<and> goIdentifier ''GoodReader''"
    by code_simp
  have s2: "satisfies ?sc ''GoodReader'' ''Reader''"
    by code_simp
  have n2: "(''Reader'', ''GoodReader'') \<in> set (assertions ?p)"
    unfolding as by simp
  have e: "Lookup ?sc ''EmptyInterface'' = Some (TypeName (UInterface []) [] [])"
    by code_simp
  note t1 = InterfaceConformance [of "''BadWriter''" ?sc "''Writer''" ?p "''EmptyInterface''"
      "[]" "[]"]
  note t2 = InterfaceConformance [of "''GoodReader''" ?sc "''Reader''" ?p "''EmptyInterface''"
      "[]" "[]"]
  from t1 h1 ids s1 n1
  have d1: "filter (forPair ''BadWriter'' ''Writer'') (interfacecheck_run ?p ?sc)
            = [Diagnostic 70 (StructImplementsInterface ''BadWriter'' ''Writer'')]"
    by (simp add: q1)
  from t2 h2 ids s2 n2
  have d2: "filter (forPair ''GoodReader'' ''Reader'') (interfacecheck_run ?p ?sc) = []"
    by simp
  from t1 e have e1: "\<not> isQualifyingInterface ?sc ''EmptyInterface''"
    by blast
  with t1 have e2: "filter (forInterface ''EmptyInterface'') (interfacecheck_run ?p ?sc) = []"
    by blast
  from ids have ids': "list_all (\<lambda>pr. goIdentifier (fst pr)) (assertions ?p)"
    by (simp add: list_all_iff)
  from h1 ids' d1 h2 s2 n2 d2 e e1 e2 show ?thesis
    by blast
qed

end
